theory Spec2Isabelle
  imports Main "HOL-Library.Word"
begin

unbundle bit_operations_syntax

section \<open>RSCP: the Roller Shutter Control Panel Protocol\<close>

text \<open>
  A shallow embedding of \<^verbatim>\<open>rscpProtocol.c\<close> (the current draft) and of the
  receive state machine of the older draft of the same file, together with the
  declarations of \<^verbatim>\<open>rscpProtocol.h\<close>.

  The callbacks of \<^verbatim>\<open>moduleConfigs/rscpProtocolCallbacks.h\<close> belong to the host
  project. The byte source and the logs of what the protocol hands to the transport and
  to the device are the state \<open>env\<close>; the other callbacks are the fields of the record
  \<open>callbacks\<close>.
\<close>

subsection \<open>Machine integers, constants of the header\<close>

type_synonym u8 = "8 word"
type_synonym u16 = "16 word"
type_synonym u32 = "32 word"

definition RSCP_MAX_TX_BUFFER_SIZE :: nat where
  "RSCP_MAX_TX_BUFFER_SIZE = 64"

definition RSCP_PREAMBLE_BYTE :: u8 where
  "RSCP_PREAMBLE_BYTE = 0xAA"

definition RSCP_CMD_CPU_QUERY :: u8 where "RSCP_CMD_CPU_QUERY = 0x03"
definition RSCP_CMD_SET_SHUTTER_ACTION :: u8 where "RSCP_CMD_SET_SHUTTER_ACTION = 0x04"
definition RSCP_CMD_SET_SHUTTER_POSITION :: u8 where "RSCP_CMD_SET_SHUTTER_POSITION = 0x05"
definition RSCP_CMD_GET_SHUTTER_POSITION :: u8 where "RSCP_CMD_GET_SHUTTER_POSITION = 0x06"
definition RSCP_CMD_SET_SWITCH_RELAY :: u8 where "RSCP_CMD_SET_SWITCH_RELAY = 0x07"
definition RSCP_CMD_GET_SWITCH_RELAY :: u8 where "RSCP_CMD_GET_SWITCH_RELAY = 0x08"
definition RSCP_CMD_SET_BUZZER_ACTION :: u8 where "RSCP_CMD_SET_BUZZER_ACTION = 0x09"
definition RSCP_CMD_GET_SWITCH_BUTTON :: u8 where "RSCP_CMD_GET_SWITCH_BUTTON = 0x0A"

lemmas RSCP_CMD_defs =
  RSCP_CMD_CPU_QUERY_def RSCP_CMD_SET_SHUTTER_ACTION_def RSCP_CMD_SET_SHUTTER_POSITION_def
  RSCP_CMD_GET_SHUTTER_POSITION_def RSCP_CMD_SET_SWITCH_RELAY_def
  RSCP_CMD_GET_SWITCH_RELAY_def RSCP_CMD_SET_BUZZER_ACTION_def
  RSCP_CMD_GET_SWITCH_BUTTON_def

definition RSCP_DEF_PROTOCOL_VERSION :: u8 where "RSCP_DEF_PROTOCOL_VERSION = 0x01"
definition RSCP_DEF_SWVERSION_VERSION :: u8 where "RSCP_DEF_SWVERSION_VERSION = 0x01"
definition RSCP_DEF_CRC_TYPE_MODBUS16 :: u8 where "RSCP_DEF_CRC_TYPE_MODBUS16 = 0x01"
definition RSCP_DEF_CPU_TYPE_ATMEGA328P_8MHZ :: u8 where
  "RSCP_DEF_CPU_TYPE_ATMEGA328P_8MHZ = 0x01"

text \<open>
  \<^verbatim>\<open>RSCP_ErrorType\<close> is a C enum with negative enumerators. The code converts it to a
  byte (\<^verbatim>\<open>rscpSendFail(frame.command, err)\<close>) and back from a byte
  (\<^verbatim>\<open>(RSCP_ErrorType)frame.data[0]\<close>), so it is modelled as the integer it is.
\<close>

type_synonym RSCP_ErrorType = int

definition RSCP_ERR_OK :: RSCP_ErrorType where "RSCP_ERR_OK = 0"
definition RSCP_ERR_TIMEOUT :: RSCP_ErrorType where "RSCP_ERR_TIMEOUT = - 1"
definition RSCP_ERR_OVERFLOW :: RSCP_ErrorType where "RSCP_ERR_OVERFLOW = - 2"
definition RSCP_ERR_MALFORMED :: RSCP_ErrorType where "RSCP_ERR_MALFORMED = - 3"
definition RSCP_ERR_NOT_SUPPORTED :: RSCP_ErrorType where "RSCP_ERR_NOT_SUPPORTED = - 4"
definition RSCP_ERR_TX_FAILED :: RSCP_ErrorType where "RSCP_ERR_TX_FAILED = - 5"
definition RSCP_ERR_REQUEST_FAILED :: RSCP_ErrorType where "RSCP_ERR_REQUEST_FAILED = - 6"
definition RSCP_ERR_TASK_BUFFER_FULL :: RSCP_ErrorType where "RSCP_ERR_TASK_BUFFER_FULL = - 7"
definition RSCP_ERR_INVALID_ANSWER :: RSCP_ErrorType where "RSCP_ERR_INVALID_ANSWER = - 8"

lemmas RSCP_ERR_defs =
  RSCP_ERR_OK_def RSCP_ERR_TIMEOUT_def RSCP_ERR_OVERFLOW_def RSCP_ERR_MALFORMED_def
  RSCP_ERR_NOT_SUPPORTED_def RSCP_ERR_TX_FAILED_def RSCP_ERR_REQUEST_FAILED_def
  RSCP_ERR_TASK_BUFFER_FULL_def RSCP_ERR_INVALID_ANSWER_def

subsection \<open>The frame\<close>

text \<open>
  \<^verbatim>\<open>struct RSCP_frame { uint8_t length; uint8_t command; uint8_t data[26]; uint16_t crc; }\<close>.
  The field \<^verbatim>\<open>length\<close> is \<open>length_f\<close> here, since \<open>length\<close> is the length of a list.
  \<open>data\<close> is a list of 26 bytes; the theorems that depend on it say so.
\<close>

record RSCP_frame =
  length_f :: u8
  command :: u8
  data :: "u8 list"
  crc :: u16

definition sizeof_data :: nat where
  "sizeof_data = 26"

text \<open>
  The bytes \<^verbatim>\<open>(uint8_t *)&frame\<close> points to: the struct has no padding, so they are
  \<open>length\<close>, \<open>command\<close>, the 26 data bytes, and the two bytes of \<open>crc\<close> (low byte first
  on the AVR and ESP32 targets the header names).
\<close>

definition RSCP_frame_bytes :: "RSCP_frame \<Rightarrow> u8 list" where
  "RSCP_frame_bytes f =
     length_f f # command f # data f @ [ucast (crc f), ucast (drop_bit 8 (crc f))]"

subsection \<open>The environment: byte source, transport and device\<close>

text \<open>
  \<open>rx\<close> scripts the outcomes of the successive calls of \<^verbatim>\<open>rscpGetRxByteCallback\<close>:
  \<open>Some b\<close> is a call that stores \<open>b\<close> and returns a non-negative value, \<open>None\<close> a call
  that returns a negative value (no byte ready). Once the script is used up no byte is
  ever ready. \<open>polls\<close> and \<open>waits\<close> count the calls of \<^verbatim>\<open>rscpGetRxByteCallback\<close>
  and \<^verbatim>\<open>rscpRxWaitingCallback\<close>; \<open>sent\<close> lists the buffers handed to
  \<^verbatim>\<open>rscpSendSlotCallback\<close>, \<open>requested\<close> the arguments of
  \<^verbatim>\<open>rscpRequestSlotCallback\<close>, and \<open>dev_calls\<close> the device callbacks invoked, each
  with the command it serves and the bytes of the argument record it is pointed at.
\<close>

record env =
  rx :: "u8 option list"
  polls :: nat
  waits :: nat
  sent :: "u8 list list"
  requested :: "u32 list"
  dev_calls :: "(u8 \<times> u8 list) list"

record callbacks =
  rscpGetCrcCallback :: "u8 list \<Rightarrow> u16"
  rscpSendSlotCallback :: "u8 list \<Rightarrow> bool"
  rscpRequestSlotCallback :: "u32 \<Rightarrow> bool"
  rscpGetShutterPositionCallback :: "u8 \<times> u8"
  rscpGetSwitchRelayCallback :: "u8"
  rscpGetSwitchButtonCallback :: "u8"
  rscpSetShutterActionCallback :: "u8 list \<Rightarrow> RSCP_ErrorType"
  rscpSetShutterPositionCallback :: "u8 list \<Rightarrow> RSCP_ErrorType"
  rscpSetSwitchRelayCallback :: "u8 list \<Rightarrow> RSCP_ErrorType"
  rscpSetBuzzerActionCallback :: "u8 list \<Rightarrow> RSCP_ErrorType"

definition rscpGetRxByteCallback :: "env \<Rightarrow> u8 option \<times> env" where
  "rscpGetRxByteCallback e =
     (case rx e of
        [] \<Rightarrow> (None, e\<lparr>polls := polls e + 1\<rparr>)
      | b # bs \<Rightarrow> (b, e\<lparr>rx := bs, polls := polls e + 1\<rparr>))"

definition rscpRxWaitingCallback :: "env \<Rightarrow> env" where
  "rscpRxWaitingCallback e = e\<lparr>waits := waits e + 1\<rparr>"

subsection \<open>Receiving\<close>

text \<open>
  \<^verbatim>\<open>rscpGetRxByteBlocking\<close>: \<open>Some b\<close> is the return value 0 with \<open>b\<close> stored in
  \<^verbatim>\<open>*readByte\<close>, \<open>None\<close> the return value -1. The test \<^verbatim>\<open>timeout_ticks-- == 0\<close>
  reads the counter before it decrements it.
\<close>

function rscpGetRxByteBlocking :: "env \<Rightarrow> u32 \<Rightarrow> u8 option \<times> env" where
  "rscpGetRxByteBlocking e timeout_ticks =
     (case rscpGetRxByteCallback e of
        (Some b, e') \<Rightarrow> (Some b, e')
      | (None, e') \<Rightarrow>
          if timeout_ticks = 0 then (None, e')
          else rscpGetRxByteBlocking (rscpRxWaitingCallback e') (timeout_ticks - 1))"
  by pat_completeness auto
termination
  by (relation "measure (\<lambda>(e, t). unat t)") (auto simp: unat_minus_one unat_gt_0)

declare rscpGetRxByteBlocking.simps [simp del]

text \<open>
  The local variables of \<^verbatim>\<open>rscpGetMsg\<close>. \<open>data_writes\<close> is not a variable of the
  code: it records, in order, the index of every store \<^verbatim>\<open>frame->data[bufferIndex++] = readByte\<close>.
\<close>

record rx_vars =
  bufferIndex :: u32
  rscpRxStatus :: u8
  frame :: RSCP_frame
  data_writes :: "nat list"

text \<open>How the body of the \<^verbatim>\<open>switch\<close> leaves: by \<^verbatim>\<open>break\<close>, or by \<^verbatim>\<open>return\<close>.\<close>

datatype flow = Break rx_vars | Return RSCP_ErrorType rx_vars

text \<open>
  The \<^verbatim>\<open>switch (rscpRxStatus)\<close> of \<^verbatim>\<open>rscpGetMsg\<close> in \<^verbatim>\<open>rscpProtocol.c\<close>. In
  \<^verbatim>\<open>bufferIndex >= (uint32_t)(frame->length - sizeof(frame->crc))\<close> the subtraction is
  unsigned (\<^verbatim>\<open>size_t\<close>) and wraps below 2; it is taken at 32 bits.
\<close>

definition rscpGetMsg_switch :: "u8 \<Rightarrow> rx_vars \<Rightarrow> flow" where
  "rscpGetMsg_switch readByte v =
     (if rscpRxStatus v = 0 then
        (if readByte \<noteq> RSCP_PREAMBLE_BYTE
         then Break (v\<lparr>frame := (frame v)\<lparr>length_f := readByte\<rparr>, rscpRxStatus := 1\<rparr>)
         else Break v)
      else if rscpRxStatus v = 1 then
        (let f = (frame v)\<lparr>command := readByte\<rparr> in
         if length_f f > 2
         then Break (v\<lparr>frame := f, rscpRxStatus := 2\<rparr>)
         else Break (v\<lparr>frame := f, rscpRxStatus := 3\<rparr>))
      else if rscpRxStatus v = 2 then
        (let i = bufferIndex v;
             f = (frame v)\<lparr>data := (data (frame v))[unat i := readByte]\<rparr>;
             v' = v\<lparr>frame := f, bufferIndex := i + 1,
                    data_writes := data_writes v @ [unat i]\<rparr>
         in if bufferIndex v' \<ge> ucast (length_f f) - 2
            then Break (v'\<lparr>rscpRxStatus := 3\<rparr>)
            else Break v')
      else if rscpRxStatus v = 3 then
        Break (v\<lparr>frame := (frame v)\<lparr>crc := push_bit 8 (ucast readByte)\<rparr>,
                 rscpRxStatus := 4\<rparr>)
      else if rscpRxStatus v = 4 then
        Return RSCP_ERR_OK (v\<lparr>frame := (frame v)\<lparr>crc := crc (frame v) OR ucast readByte\<rparr>\<rparr>)
      else Break v)"

text \<open>
  The same \<^verbatim>\<open>switch\<close> in the older draft of \<^verbatim>\<open>rscpProtocol.c\<close>
  (\<^verbatim>\<open>src/unnamed/part_000\<close>): after the command byte it always waits for data.
\<close>

definition rscpGetMsg_switch_part_000 :: "u8 \<Rightarrow> rx_vars \<Rightarrow> flow" where
  "rscpGetMsg_switch_part_000 readByte v =
     (if rscpRxStatus v = 0 then
        (if readByte \<noteq> RSCP_PREAMBLE_BYTE
         then Break (v\<lparr>frame := (frame v)\<lparr>length_f := readByte\<rparr>, rscpRxStatus := 1\<rparr>)
         else Break v)
      else if rscpRxStatus v = 1 then
        Break (v\<lparr>frame := (frame v)\<lparr>command := readByte\<rparr>, rscpRxStatus := 2\<rparr>)
      else if rscpRxStatus v = 2 then
        (let i = bufferIndex v;
             f = (frame v)\<lparr>data := (data (frame v))[unat i := readByte]\<rparr>;
             v' = v\<lparr>frame := f, bufferIndex := i + 1,
                    data_writes := data_writes v @ [unat i]\<rparr>
         in if bufferIndex v' \<ge> ucast (length_f f) - 2
            then Break (v'\<lparr>rscpRxStatus := 3\<rparr>)
            else Break v')
      else if rscpRxStatus v = 3 then
        Break (v\<lparr>frame := (frame v)\<lparr>crc := push_bit 8 (ucast readByte)\<rparr>,
                 rscpRxStatus := 4\<rparr>)
      else if rscpRxStatus v = 4 then
        Return RSCP_ERR_OK (v\<lparr>frame := (frame v)\<lparr>crc := crc (frame v) OR ucast readByte\<rparr>\<rparr>)
      else Break v)"

lemma rscpGetRxByteBlocking_consumes:
  "rscpGetRxByteBlocking e t = (Some b, e') \<Longrightarrow> length (rx e') < length (rx e)"
proof (induction e t rule: rscpGetRxByteBlocking.induct)
  case (1 e t)
  show ?case
  proof (cases "rx e")
    case Nil
    with "1.prems" "1.IH" show ?thesis
      by (subst (asm) rscpGetRxByteBlocking.simps)
         (auto simp: rscpGetRxByteCallback_def rscpRxWaitingCallback_def split: if_splits)
  next
    case (Cons x xs)
    with "1.prems" "1.IH" show ?thesis
      by (subst (asm) rscpGetRxByteBlocking.simps)
         (cases x; fastforce simp: rscpGetRxByteCallback_def rscpRxWaitingCallback_def
            split: if_splits)
  qed
qed

text \<open>
  The loop of \<^verbatim>\<open>rscpGetMsg\<close>, which the two drafts share word for word; the
  \<^verbatim>\<open>switch\<close> is its parameter. \<^verbatim>\<open>timeout_ticks\<close> is passed by value to
  \<^verbatim>\<open>rscpGetRxByteBlocking\<close>, so every byte gets the whole budget.
\<close>

function rscpGetMsg_loop ::
  "(u8 \<Rightarrow> rx_vars \<Rightarrow> flow) \<Rightarrow> u32 \<Rightarrow> rx_vars \<Rightarrow> env \<Rightarrow> RSCP_ErrorType \<times> rx_vars \<times> env" where
  "rscpGetMsg_loop sw timeout_ticks v e =
     (if bufferIndex v < of_nat sizeof_data then
        (case rscpGetRxByteBlocking e timeout_ticks of
           (None, e') \<Rightarrow> (RSCP_ERR_TIMEOUT, v, e')
         | (Some readByte, e') \<Rightarrow>
             (case sw readByte v of
                Return err v' \<Rightarrow> (err, v', e')
              | Break v' \<Rightarrow> rscpGetMsg_loop sw timeout_ticks v' e'))
      else (RSCP_ERR_OVERFLOW, v, e))"
  by pat_completeness auto
termination
  by (relation "measure (\<lambda>(sw, t, v, e). length (rx e))")
     (auto dest: rscpGetRxByteBlocking_consumes [OF sym])

declare rscpGetMsg_loop.simps [simp del]

definition rx_vars_init :: "RSCP_frame \<Rightarrow> rx_vars" where
  "rx_vars_init f = \<lparr>bufferIndex = 0, rscpRxStatus = 0, frame = f, data_writes = []\<rparr>"

text \<open>
  \<^verbatim>\<open>rscpGetMsg(frame, timeout_ticks)\<close> of \<^verbatim>\<open>rscpProtocol.c\<close>. The argument \<open>f\<close> is
  what \<^verbatim>\<open>*frame\<close> holds at the call (the callers pass an uninitialised local);
  the result is the error code, \<^verbatim>\<open>*frame\<close> and the environment at the return.
\<close>

definition rscpGetMsg_run :: "u32 \<Rightarrow> RSCP_frame \<Rightarrow> env \<Rightarrow> RSCP_ErrorType \<times> rx_vars \<times> env" where
  "rscpGetMsg_run timeout_ticks f e =
     rscpGetMsg_loop rscpGetMsg_switch timeout_ticks (rx_vars_init f) e"

definition rscpGetMsg :: "u32 \<Rightarrow> RSCP_frame \<Rightarrow> env \<Rightarrow> RSCP_ErrorType \<times> RSCP_frame \<times> env" where
  "rscpGetMsg timeout_ticks f e =
     (case rscpGetMsg_run timeout_ticks f e of (err, v, e') \<Rightarrow> (err, frame v, e'))"

text \<open>\<^verbatim>\<open>rscpGetMsg\<close> of the older draft (\<^verbatim>\<open>src/unnamed/part_000\<close>).\<close>

definition rscpGetMsg_run_part_000 ::
  "u32 \<Rightarrow> RSCP_frame \<Rightarrow> env \<Rightarrow> RSCP_ErrorType \<times> rx_vars \<times> env" where
  "rscpGetMsg_run_part_000 timeout_ticks f e =
     rscpGetMsg_loop rscpGetMsg_switch_part_000 timeout_ticks (rx_vars_init f) e"

definition rscpGetMsg_part_000 ::
  "u32 \<Rightarrow> RSCP_frame \<Rightarrow> env \<Rightarrow> RSCP_ErrorType \<times> RSCP_frame \<times> env" where
  "rscpGetMsg_part_000 timeout_ticks f e =
     (case rscpGetMsg_run_part_000 timeout_ticks f e of (err, v, e') \<Rightarrow> (err, frame v, e'))"

subsection \<open>Sending\<close>

text \<open>
  What \<^verbatim>\<open>rscpSendMsg\<close> stores in its local \<^verbatim>\<open>uint8_t txBuffer[RSCP_MAX_TX_BUFFER_SIZE]\<close>.
  The code stores at the indices 0, 1, 2, ... in order, up to \<^verbatim>\<open>txBufferIndex\<close>, and
  tests none of them against the size of the array: the element at position \<open>k\<close> of this
  list is the store \<^verbatim>\<open>txBuffer[k] = ...\<close>, and the length of the list is the final
  \<^verbatim>\<open>txBufferIndex\<close>; a list longer than \<open>RSCP_MAX_TX_BUFFER_SIZE\<close> stands for stores
  past the end of the array. \<open>dat\<close> is the memory at \<^verbatim>\<open>data\<close>, of which \<^verbatim>\<open>memcpy\<close> copies
  \<^verbatim>\<open>dataLength\<close> bytes. The length byte \<^verbatim>\<open>2 + dataLength\<close> is stored in a \<^verbatim>\<open>uint8_t\<close>. The
  CRC is taken over \<^verbatim>\<open>&txBuffer[1]\<close>, \<^verbatim>\<open>txBufferIndex - 1\<close> bytes.
\<close>

definition rscpSendMsg_txBuffer ::
  "callbacks \<Rightarrow> u8 \<Rightarrow> u8 list \<Rightarrow> u8 \<Rightarrow> u8 list" where
  "rscpSendMsg_txBuffer cb cmd dat dataLength =
     (let filled = [RSCP_PREAMBLE_BYTE, 2 + dataLength, cmd] @ take (unat dataLength) dat;
          c = rscpGetCrcCallback cb (tl filled)
      in filled @ [ucast (drop_bit 8 c AND 0xFF), ucast (c AND 0xFF)])"

definition rscpSendMsg :: "callbacks \<Rightarrow> u8 \<Rightarrow> u8 list \<Rightarrow> u8 \<Rightarrow> env \<Rightarrow> RSCP_ErrorType \<times> env" where
  "rscpSendMsg cb cmd dat dataLength e =
     (let txBuffer = rscpSendMsg_txBuffer cb cmd dat dataLength;
          e' = e\<lparr>sent := sent e @ [txBuffer]\<rparr>
      in if \<not> rscpSendSlotCallback cb txBuffer then (RSCP_ERR_TX_FAILED, e')
         else (RSCP_ERR_OK, e'))"

subsection \<open>Master\<close>

text \<open>
  The CRC both roles recompute: \<^verbatim>\<open>rscpGetCrcCallback((uint8_t *)&frame, frame.length)\<close>.
  It is computed only after \<^verbatim>\<open>rscpGetMsg\<close> has returned \<open>RSCP_ERR_OK\<close>, when the length
  field is at most 28 (shown below), so the bytes read are the length, the command and
  data bytes, inside the struct.
\<close>

definition frame_crc :: "callbacks \<Rightarrow> RSCP_frame \<Rightarrow> u16" where
  "frame_crc cb f = rscpGetCrcCallback cb (take (unat (length_f f)) (RSCP_frame_bytes f))"

text \<open>
  \<^verbatim>\<open>for (i = 0; i < replyLength; i++) reply[i] = frame.data[i];\<close> The bytes behind
  \<^verbatim>\<open>frame.data\<close> are those of \<^verbatim>\<open>frame.crc\<close>. The model follows the code while it
  reads inside the struct (\<^verbatim>\<open>replyLength\<close> at most 28) and writes inside the caller's
  buffer.
\<close>

definition copy_reply :: "RSCP_frame \<Rightarrow> u8 \<Rightarrow> u8 list \<Rightarrow> u8 list" where
  "copy_reply f replyLength reply =
     fold (\<lambda>i r. r[i := drop 2 (RSCP_frame_bytes f) ! i]) [0..<unat replyLength] reply"

text \<open>
  \<^verbatim>\<open>rscpRequestData(command, reply, replyLength, timeout_ticks)\<close>. \<open>reply\<close> is the caller's
  buffer, returned as the call leaves it; \<open>frame0\<close> is what the uninitialised local
  \<^verbatim>\<open>frame\<close> holds.
\<close>

definition rscpRequestData ::
  "callbacks \<Rightarrow> u8 \<Rightarrow> u8 list \<Rightarrow> u8 \<Rightarrow> u32 \<Rightarrow> RSCP_frame \<Rightarrow> env
     \<Rightarrow> RSCP_ErrorType \<times> u8 list \<times> env" where
  "rscpRequestData cb cmd reply replyLength timeout_ticks frame0 e =
     (case rscpSendMsg cb cmd [0x00] 1 e of
        (err, e1) \<Rightarrow>
          if err \<noteq> RSCP_ERR_OK then (err, reply, e1)
          else
            let rxBufferMaxLength = 1 + 1 + 1 + ucast replyLength + 2;
                e2 = e1\<lparr>requested := requested e1 @ [rxBufferMaxLength]\<rparr>
            in if \<not> rscpRequestSlotCallback cb rxBufferMaxLength
               then (RSCP_ERR_REQUEST_FAILED, reply, e2)
               else
                 (case rscpGetMsg timeout_ticks frame0 e2 of
                    (err, f, e3) \<Rightarrow>
                      if err \<noteq> RSCP_ERR_OK then (err, reply, e3)
                      else if frame_crc cb f \<noteq> crc f then (RSCP_ERR_MALFORMED, reply, e3)
                      else if command f \<noteq> cmd then (RSCP_ERR_INVALID_ANSWER, reply, e3)
                      else (err, copy_reply f replyLength reply, e3)))"

text \<open>
  \<^verbatim>\<open>rscpSendAction(command, data, dataLength, timeout_ticks)\<close>. Its last line returns the
  byte \<^verbatim>\<open>frame.data[0]\<close> as an \<^verbatim>\<open>RSCP_ErrorType\<close>.
\<close>

definition rscpSendAction ::
  "callbacks \<Rightarrow> u8 \<Rightarrow> u8 list \<Rightarrow> u8 \<Rightarrow> u32 \<Rightarrow> RSCP_frame \<Rightarrow> env \<Rightarrow> RSCP_ErrorType \<times> env" where
  "rscpSendAction cb cmd dat dataLength timeout_ticks frame0 e =
     (case rscpSendMsg cb cmd dat dataLength e of
        (err, e1) \<Rightarrow>
          if err \<noteq> RSCP_ERR_OK then (err, e1)
          else
            let rxBufferMaxLength = 1 + 1 + 1 + 1 + 2;
                e2 = e1\<lparr>requested := requested e1 @ [rxBufferMaxLength]\<rparr>
            in if \<not> rscpRequestSlotCallback cb rxBufferMaxLength
               then (RSCP_ERR_REQUEST_FAILED, e2)
               else
                 (case rscpGetMsg timeout_ticks frame0 e2 of
                    (err, f, e3) \<Rightarrow>
                      if err \<noteq> RSCP_ERR_OK then (err, e3)
                      else if frame_crc cb f \<noteq> crc f then (RSCP_ERR_MALFORMED, e3)
                      else if command f \<noteq> cmd then (RSCP_ERR_INVALID_ANSWER, e3)
                      else (uint (data f ! 0), e3)))"

subsection \<open>Slave\<close>

text \<open>
  \<^verbatim>\<open>struct RSCP_Reply_cpuquery\<close> is packed: \<open>flags\<close> (16 bits), \<open>crcType\<close>,
  \<open>protocolversion\<close>, \<open>cpuType\<close>, \<open>swversion\<close>, \<open>packetMaxLen\<close> (16 bits, set to
  \<^verbatim>\<open>sizeof(struct RSCP_frame)\<close>, which is 30); 8 bytes, the 16-bit fields low byte first.
\<close>

definition rscpGetCPUQuery :: "callbacks \<Rightarrow> env \<Rightarrow> RSCP_ErrorType \<times> env" where
  "rscpGetCPUQuery cb e =
     rscpSendMsg cb RSCP_CMD_CPU_QUERY
       [0, 0, RSCP_DEF_CRC_TYPE_MODBUS16, RSCP_DEF_PROTOCOL_VERSION,
        RSCP_DEF_CPU_TYPE_ATMEGA328P_8MHZ, RSCP_DEF_SWVERSION_VERSION, 30, 0] 8 e"

definition rscpGetShutterPosition :: "callbacks \<Rightarrow> env \<Rightarrow> RSCP_ErrorType \<times> env" where
  "rscpGetShutterPosition cb e =
     (let reply = rscpGetShutterPositionCallback cb;
          e' = e\<lparr>dev_calls := dev_calls e @ [(RSCP_CMD_GET_SHUTTER_POSITION, [])]\<rparr>
      in rscpSendMsg cb RSCP_CMD_GET_SHUTTER_POSITION [fst reply, snd reply] 2 e')"

definition rscpGetSwitchRelay :: "callbacks \<Rightarrow> env \<Rightarrow> RSCP_ErrorType \<times> env" where
  "rscpGetSwitchRelay cb e =
     (let reply = rscpGetSwitchRelayCallback cb;
          e' = e\<lparr>dev_calls := dev_calls e @ [(RSCP_CMD_GET_SWITCH_RELAY, [])]\<rparr>
      in rscpSendMsg cb RSCP_CMD_GET_SWITCH_RELAY [reply] 1 e')"

definition rscpGetSwitchButton :: "callbacks \<Rightarrow> env \<Rightarrow> RSCP_ErrorType \<times> env" where
  "rscpGetSwitchButton cb e =
     (let reply = rscpGetSwitchButtonCallback cb;
          e' = e\<lparr>dev_calls := dev_calls e @ [(RSCP_CMD_GET_SWITCH_BUTTON, [])]\<rparr>
      in rscpSendMsg cb RSCP_CMD_GET_SWITCH_BUTTON [reply] 1 e')"

definition rscpSendFail :: "callbacks \<Rightarrow> u8 \<Rightarrow> u8 \<Rightarrow> env \<Rightarrow> RSCP_ErrorType \<times> env" where
  "rscpSendFail cb cmd errorCode e = rscpSendMsg cb cmd [errorCode] 1 e"

text \<open>
  A set-style case of \<^verbatim>\<open>rscpHandle\<close>: the device callback is called with
  \<^verbatim>\<open>&frame.data[0]\<close> cast to a pointer to the command's packed argument record, whose
  size is \<open>n\<close>; nothing compares \<open>n\<close> with \<^verbatim>\<open>frame.length\<close>. The callback's argument is
  the \<open>n\<close> bytes it is pointed at.
\<close>

definition set_call ::
  "(u8 list \<Rightarrow> RSCP_ErrorType) \<Rightarrow> nat \<Rightarrow> RSCP_frame \<Rightarrow> env \<Rightarrow> RSCP_ErrorType \<times> env" where
  "set_call callback n f e =
     (let arg = take n (data f)
      in (callback arg, e\<lparr>dev_calls := dev_calls e @ [(command f, arg)]\<rparr>))"

text \<open>
  The sizes of the packed argument records: \<^verbatim>\<open>RSCP_Arg_rollershutter\<close> 3,
  \<^verbatim>\<open>RSCP_Arg_rollershutterposition\<close> 2, \<^verbatim>\<open>RSCP_Arg_switchrelay\<close> 1,
  \<^verbatim>\<open>RSCP_Arg_buzzer_action\<close> 9 (a byte and two 32-bit fields).
\<close>

definition rscpHandle :: "callbacks \<Rightarrow> u32 \<Rightarrow> RSCP_frame \<Rightarrow> env \<Rightarrow> RSCP_ErrorType \<times> env" where
  "rscpHandle cb timeout_ticks frame0 e =
     (case rscpGetMsg timeout_ticks frame0 e of
        (err, f, e1) \<Rightarrow>
          if err \<noteq> RSCP_ERR_OK then (err, e1)
          else if frame_crc cb f \<noteq> crc f then (RSCP_ERR_MALFORMED, e1)
          else if command f = RSCP_CMD_CPU_QUERY then rscpGetCPUQuery cb e1
          else if command f = RSCP_CMD_GET_SHUTTER_POSITION then rscpGetShutterPosition cb e1
          else if command f = RSCP_CMD_GET_SWITCH_RELAY then rscpGetSwitchRelay cb e1
          else if command f = RSCP_CMD_GET_SWITCH_BUTTON then rscpGetSwitchButton cb e1
          else
            (case (if command f = RSCP_CMD_SET_SHUTTER_ACTION
                   then set_call (rscpSetShutterActionCallback cb) 3 f e1
                   else if command f = RSCP_CMD_SET_SHUTTER_POSITION
                   then set_call (rscpSetShutterPositionCallback cb) 2 f e1
                   else if command f = RSCP_CMD_SET_SWITCH_RELAY
                   then set_call (rscpSetSwitchRelayCallback cb) 1 f e1
                   else if command f = RSCP_CMD_SET_BUZZER_ACTION
                   then set_call (rscpSetBuzzerActionCallback cb) 9 f e1
                   else (RSCP_ERR_NOT_SUPPORTED, e1)) of
               (err, e2) \<Rightarrow> rscpSendFail cb (command f) (of_int err) e2))"

subsection \<open>Concrete collaborators for the examples\<close>

text \<open>
  The host's CRC routine and device are not part of the protocol. The examples below
  run the code with a byte sum in place of the CRC, a transport that accepts every slot
  and request, and a device whose set callbacks answer \<open>RSCP_ERR_OK\<close>.
\<close>

definition sum16 :: "u8 list \<Rightarrow> u16" where
  "sum16 bs = fold (\<lambda>b acc. acc + ucast b) bs 0x1234"

definition cb0 :: callbacks where
  "cb0 = \<lparr>rscpGetCrcCallback = sum16,
          rscpSendSlotCallback = (\<lambda>_. True),
          rscpRequestSlotCallback = (\<lambda>_. True),
          rscpGetShutterPositionCallback = (1, 50),
          rscpGetSwitchRelayCallback = 2,
          rscpGetSwitchButtonCallback = 1,
          rscpSetShutterActionCallback = (\<lambda>_. RSCP_ERR_OK),
          rscpSetShutterPositionCallback = (\<lambda>_. RSCP_ERR_OK),
          rscpSetSwitchRelayCallback = (\<lambda>_. RSCP_ERR_OK),
          rscpSetBuzzerActionCallback = (\<lambda>_. RSCP_ERR_OK)\<rparr>"

text \<open>
  The same collaborators with set callbacks whose answers differ from one another and
  depend on the argument record they are given.
\<close>

definition cb1 :: callbacks where
  "cb1 = cb0\<lparr>
     rscpSetShutterActionCallback :=
       (\<lambda>arg. if arg = replicate 3 0xEE then RSCP_ERR_TIMEOUT else RSCP_ERR_OK),
     rscpSetShutterPositionCallback :=
       (\<lambda>arg. if arg = replicate 2 0xEE then RSCP_ERR_OVERFLOW else RSCP_ERR_OK),
     rscpSetSwitchRelayCallback :=
       (\<lambda>arg. if arg = replicate 1 0xEE then RSCP_ERR_MALFORMED else RSCP_ERR_OK),
     rscpSetBuzzerActionCallback :=
       (\<lambda>arg. if arg = replicate 9 0xEE then RSCP_ERR_TASK_BUFFER_FULL else RSCP_ERR_OK)\<rparr>"

definition env0 :: "u8 option list \<Rightarrow> env" where
  "env0 script = \<lparr>rx = script, polls = 0, waits = 0, sent = [], requested = [], dev_calls = []\<rparr>"

definition frame0 :: RSCP_frame where
  "frame0 = \<lparr>length_f = 0xEE, command = 0xEE, data = replicate 26 0xEE, crc = 0xEEEE\<rparr>"

subsection \<open>Vocabulary of the statements\<close>

text \<open>The commands \<^verbatim>\<open>rscpHandle\<close> has a case for.\<close>

definition RSCP_catalog :: "u8 set" where
  "RSCP_catalog = {RSCP_CMD_CPU_QUERY, RSCP_CMD_SET_SHUTTER_ACTION, RSCP_CMD_SET_SHUTTER_POSITION,
     RSCP_CMD_GET_SHUTTER_POSITION, RSCP_CMD_SET_SWITCH_RELAY, RSCP_CMD_GET_SWITCH_RELAY,
     RSCP_CMD_SET_BUZZER_ACTION, RSCP_CMD_GET_SWITCH_BUTTON}"

text \<open>
  The frame \<^verbatim>\<open>rscpSendFail(command, errorCode)\<close> hands to the transport: preamble, length
  3, the command, the code, and the CRC over length, command and code.
\<close>

definition ack_frame :: "callbacks \<Rightarrow> u8 \<Rightarrow> u8 \<Rightarrow> u8 list" where
  "ack_frame cb cmd errorCode =
     [RSCP_PREAMBLE_BYTE, 3, cmd, errorCode,
      ucast (drop_bit 8 (rscpGetCrcCallback cb [3, cmd, errorCode])),
      ucast (rscpGetCrcCallback cb [3, cmd, errorCode])]"

text \<open>
  The first byte of the script that is not the preamble: the byte \<^verbatim>\<open>rscpGetMsg\<close> takes
  as the length field, if it gets that far.
\<close>

fun length_byte :: "u8 option list \<Rightarrow> u8 option" where
  "length_byte [] = None"
| "length_byte (None # r) = length_byte r"
| "length_byte (Some b # r) = (if b = RSCP_PREAMBLE_BYTE then length_byte r else Some b)"

text \<open>The environment with the rest of the script and the number of polls set.\<close>

definition feed :: "env \<Rightarrow> u8 option list \<Rightarrow> nat \<Rightarrow> env" where
  "feed e bs p = e\<lparr>rx := bs, polls := p\<rparr>"

text \<open>
  What holds of the variables of \<^verbatim>\<open>rscpGetMsg\<close> (\<^verbatim>\<open>rscpProtocol.c\<close>) whenever the loop
  test is evaluated, and at every return.
\<close>

definition rx_inv :: "rx_vars \<Rightarrow> bool" where
  "rx_inv v \<longleftrightarrow>
     unat (bufferIndex v) \<le> 26 \<and> data_writes v = [0..<unat (bufferIndex v)] \<and>
     (rscpRxStatus v = 0 \<or> rscpRxStatus v = 1 \<or> rscpRxStatus v = 2 \<or> rscpRxStatus v = 3
        \<or> rscpRxStatus v = 4) \<and>
     (rscpRxStatus v = 0 \<or> rscpRxStatus v = 1 \<longrightarrow> bufferIndex v = 0) \<and>
     (rscpRxStatus v = 2 \<longrightarrow> unat (bufferIndex v) + 2 < unat (length_f (frame v))) \<and>
     (rscpRxStatus v = 3 \<or> rscpRxStatus v = 4 \<longrightarrow>
        unat (bufferIndex v) =
          (if 2 < unat (length_f (frame v)) then unat (length_f (frame v)) - 2 else 0))"

text \<open>\<open>store_at d i bs\<close> is \<open>d\<close> after the stores \<open>d[i] = b\<^sub>0\<close>, \<open>d[i + 1] = b\<^sub>1\<close>, ...\<close>

fun store_at :: "u8 list \<Rightarrow> nat \<Rightarrow> u8 list \<Rightarrow> u8 list" where
  "store_at d i [] = d"
| "store_at d i (b # bs) = store_at (d[i := b]) (Suc i) bs"

text \<open>
  Where the two drafts of the \<^verbatim>\<open>switch\<close> can part: in state 1 with a length field of
  at most 2. \<open>agree_inv\<close> excludes it, now and for the length byte still to be read.
\<close>

definition agree_inv :: "rx_vars \<Rightarrow> u8 option list \<Rightarrow> bool" where
  "agree_inv v script \<longleftrightarrow>
     (rscpRxStatus v = 0 \<longrightarrow> (case length_byte script of None \<Rightarrow> True | Some l \<Rightarrow> 2 < l)) \<and>
     (rscpRxStatus v = 1 \<longrightarrow> 2 < length_f (frame v))"

section \<open>Properties\<close>

subsection \<open>Reading one byte\<close>

lemma rscpGetRxByteBlocking_ready:
  "rx e = Some b # bs \<Longrightarrow>
   rscpGetRxByteBlocking e t = (Some b, e\<lparr>rx := bs, polls := polls e + 1\<rparr>)"
  by (subst rscpGetRxByteBlocking.simps) (simp add: rscpGetRxByteCallback_def)

lemma rscpGetRxByteBlocking_never:
  "\<forall>x\<in>set (rx e). x = None \<Longrightarrow>
   rscpGetRxByteBlocking e t =
     (None, e\<lparr>rx := drop (unat t + 1) (rx e), polls := polls e + (unat t + 1),
              waits := waits e + unat t\<rparr>)"
proof (induction e t rule: rscpGetRxByteBlocking.induct)
  case (1 e t)
  show ?case
  proof (cases "t = 0")
    case True
    with "1.prems" show ?thesis
      by (subst rscpGetRxByteBlocking.simps)
         (auto simp: rscpGetRxByteCallback_def split: list.splits)
  next
    case False
    then have t: "unat t = Suc (unat (t - 1))"
      by (simp add: unat_minus_one unat_gt_0)
    define w where "w = (\<lambda>e'. rscpRxWaitingCallback e')"
    show ?thesis
    proof (cases "rx e")
      case Nil
      let ?e2 = "w (e\<lparr>polls := polls e + 1\<rparr>)"
      have "rscpGetRxByteBlocking ?e2 (t - 1) =
              (None, ?e2\<lparr>rx := drop (unat (t - 1) + 1) (rx ?e2),
                         polls := polls ?e2 + (unat (t - 1) + 1),
                         waits := waits ?e2 + unat (t - 1)\<rparr>)"
        unfolding w_def using "1.prems" False Nil
        by (intro "1.IH") (auto simp: rscpGetRxByteCallback_def rscpRxWaitingCallback_def)
      then show ?thesis
        using False Nil t
        by (subst rscpGetRxByteBlocking.simps)
           (simp add: w_def rscpGetRxByteCallback_def rscpRxWaitingCallback_def)
    next
      case (Cons x xs)
      with "1.prems" have x: "x = None" and xs: "\<forall>y\<in>set xs. y = None" by auto
      let ?e2 = "w (e\<lparr>rx := xs, polls := polls e + 1\<rparr>)"
      have "rscpGetRxByteBlocking ?e2 (t - 1) =
              (None, ?e2\<lparr>rx := drop (unat (t - 1) + 1) (rx ?e2),
                         polls := polls ?e2 + (unat (t - 1) + 1),
                         waits := waits ?e2 + unat (t - 1)\<rparr>)"
        unfolding w_def using xs False Cons x
        by (intro "1.IH") (auto simp: rscpGetRxByteCallback_def rscpRxWaitingCallback_def)
      then show ?thesis
        using False Cons x t
        by (subst rscpGetRxByteBlocking.simps)
           (simp add: w_def rscpGetRxByteCallback_def rscpRxWaitingCallback_def)
    qed
  qed
qed

subsection \<open>The tick budget\<close>

text \<open>
  C4, as the specification words it, counts \<open>k\<close> polling attempts for a budget of \<open>k\<close>
  ticks. With a budget of 0 and a source that is never ready the code calls
  \<^verbatim>\<open>rscpGetRxByteCallback\<close> once before it gives up: the calls made (1) are not the
  budget (0).
\<close>

theorem timeout_polls_counterexample:
  "fst (rscpGetMsg 0 frame0 (env0 [])) = RSCP_ERR_TIMEOUT \<and>
   polls (snd (snd (rscpGetMsg 0 frame0 (env0 [])))) = 1 \<and>
   polls (snd (snd (rscpGetMsg 0 frame0 (env0 [])))) \<noteq> polls (env0 []) + unat (0 :: u32)"
  by code_simp

text \<open>
  C4 (amended): for every tick budget \<open>k\<close>, if \<^verbatim>\<open>rscpGetRxByteCallback\<close> never produces
  a byte, \<^verbatim>\<open>rscpGetMsg\<close> fails with \<open>RSCP_ERR_TIMEOUT\<close> after exactly \<open>k + 1\<close> calls of
  \<^verbatim>\<open>rscpGetRxByteCallback\<close> and exactly \<open>k\<close> calls of \<^verbatim>\<open>rscpRxWaitingCallback\<close>, and
  leaves the frame as it was.
\<close>

theorem timeout_after_budget_plus_one_polls:
  assumes "\<forall>x\<in>set (rx e). x = None"
  shows "rscpGetMsg k f e =
    (RSCP_ERR_TIMEOUT, f,
     e\<lparr>rx := drop (unat k + 1) (rx e), polls := polls e + (unat k + 1),
       waits := waits e + unat k\<rparr>)"
  unfolding rscpGetMsg_def rscpGetMsg_run_def
  by (subst rscpGetMsg_loop.simps)
     (simp add: rscpGetRxByteBlocking_never [OF assms] rx_vars_init_def sizeof_data_def)

theorem timeout_after_budget_plus_one_polls_witness:
  "rscpGetMsg 3 frame0 (env0 [None, None]) =
     (RSCP_ERR_TIMEOUT, frame0, (env0 [None, None])\<lparr>rx := [], polls := 4, waits := 3\<rparr>)"
  using timeout_after_budget_plus_one_polls [of "env0 [None, None]" 3 frame0]
  by (simp add: env0_def)

subsection \<open>What receiving leaves alone\<close>

lemma rscpGetRxByteBlocking_logs:
  "rscpGetRxByteBlocking e t = (r, e') \<Longrightarrow>
   sent e' = sent e \<and> requested e' = requested e \<and> dev_calls e' = dev_calls e"
proof (induction e t arbitrary: r e' rule: rscpGetRxByteBlocking.induct)
  case (1 e t)
  obtain x e1 where cb: "rscpGetRxByteCallback e = (x, e1)" by force
  then have logs1: "sent e1 = sent e \<and> requested e1 = requested e \<and> dev_calls e1 = dev_calls e"
    by (auto simp: rscpGetRxByteCallback_def split: list.splits)
  show ?case
  proof (cases "x = None \<and> t \<noteq> 0")
    case True
    then have "rscpGetRxByteBlocking (rscpRxWaitingCallback e1) (t - 1) = (r, e')"
      using "1.prems" cb by (subst (asm) rscpGetRxByteBlocking.simps) simp
    with True cb have "sent e' = sent (rscpRxWaitingCallback e1) \<and>
        requested e' = requested (rscpRxWaitingCallback e1) \<and>
        dev_calls e' = dev_calls (rscpRxWaitingCallback e1)"
      by (intro "1.IH") auto
    with logs1 show ?thesis by (simp add: rscpRxWaitingCallback_def)
  next
    case False
    then have "e' = e1"
      using "1.prems" cb
      by (subst (asm) rscpGetRxByteBlocking.simps) (auto split: option.splits if_splits)
    with logs1 show ?thesis by simp
  qed
qed

lemma rscpGetMsg_loop_logs:
  "rscpGetMsg_loop sw t v e = (err, v', e') \<Longrightarrow>
   sent e' = sent e \<and> requested e' = requested e \<and> dev_calls e' = dev_calls e"
proof (induction sw t v e arbitrary: err v' e' rule: rscpGetMsg_loop.induct)
  case (1 sw t v e)
  show ?case
  proof (cases "bufferIndex v < of_nat sizeof_data")
    case False
    with "1.prems" show ?thesis
      by (subst (asm) rscpGetMsg_loop.simps) simp
  next
    case True
    obtain x e1 where blk: "rscpGetRxByteBlocking e t = (x, e1)" by force
    note logs1 = rscpGetRxByteBlocking_logs [OF blk]
    show ?thesis
    proof (cases x)
      case None
      with "1.prems" True blk logs1 show ?thesis
        by (subst (asm) rscpGetMsg_loop.simps) auto
    next
      case (Some b)
      show ?thesis
      proof (cases "sw b v")
        case (Return r v1)
        with "1.prems" True blk Some logs1 show ?thesis
          by (subst (asm) rscpGetMsg_loop.simps) auto
      next
        case (Break v1)
        then have "rscpGetMsg_loop sw t v1 e1 = (err, v', e')"
          using "1.prems" True blk Some by (subst (asm) rscpGetMsg_loop.simps) simp
        then have "sent e' = sent e1 \<and> requested e' = requested e1 \<and> dev_calls e' = dev_calls e1"
          using "1.IH" [OF True blk [symmetric] Some Break] by simp
        with logs1 show ?thesis by simp
      qed
    qed
  qed
qed

lemma rscpGetMsg_logs:
  "rscpGetMsg t f e = (err, f', e') \<Longrightarrow>
   sent e' = sent e \<and> requested e' = requested e \<and> dev_calls e' = dev_calls e"
  unfolding rscpGetMsg_def rscpGetMsg_run_def
  by (auto split: prod.splits dest: rscpGetMsg_loop_logs)

lemma ucast_low_byte: "(ucast (c AND 0xFF :: u16) :: u8) = ucast c"
proof -
  have m: "(0xFF :: u16) = mask 8" by (simp add: mask_eq_exp_minus_1)
  have "(ucast (c AND mask 8 :: u16) :: u8) = ucast c"
    by (rule bit_word_eqI) (auto simp: bit_simps)
  then show ?thesis unfolding m .
qed

lemma ucast_high_byte: "(ucast (drop_bit 8 c AND 0xFF :: u16) :: u8) = ucast (drop_bit 8 c)"
  by (rule ucast_low_byte)

lemma rscpSendMsg_sent:
  "sent (snd (rscpSendMsg cb cmd dat n e)) = sent e @ [rscpSendMsg_txBuffer cb cmd dat n]"
  by (simp add: rscpSendMsg_def Let_def)

lemma rscpSendMsg_dev_calls:
  "dev_calls (snd (rscpSendMsg cb cmd dat n e)) = dev_calls e"
  by (simp add: rscpSendMsg_def Let_def)

lemma rscpGetMsg_loop_ready:
  assumes "rx e = Some b # bs" and "bufferIndex v < of_nat sizeof_data"
  shows "rscpGetMsg_loop sw t v e =
    (case sw b v of
       Return err v' \<Rightarrow> (err, v', e\<lparr>rx := bs, polls := polls e + 1\<rparr>)
     | Break v' \<Rightarrow> rscpGetMsg_loop sw t v' (e\<lparr>rx := bs, polls := polls e + 1\<rparr>))"
  using assms
  by (subst rscpGetMsg_loop.simps) (simp add: rscpGetRxByteBlocking_ready split: flow.split)

lemma crc_reassemble:
  "push_bit 8 (ucast (ucast (drop_bit 8 c) :: u8)) OR ucast (ucast c :: u8) = (c :: u16)"
  by (rule bit_word_eqI) (auto simp: bit_simps)

lemma rscpSendFail_byte: "(of_int RSCP_ERR_NOT_SUPPORTED :: u8) = 0xFC"
  by (simp add: RSCP_ERR_NOT_SUPPORTED_def)

lemma rscpSendMsg_one:
  "rscpSendMsg_txBuffer cb cmd [x] 1 =
     [RSCP_PREAMBLE_BYTE, 3, cmd, x,
      ucast (drop_bit 8 (rscpGetCrcCallback cb [3, cmd, x])),
      ucast (rscpGetCrcCallback cb [3, cmd, x])]"
  by (simp add: rscpSendMsg_txBuffer_def Let_def ucast_low_byte ucast_high_byte)

lemma rscpHandle_malformed:
  assumes "rscpGetMsg t f0 e = (RSCP_ERR_OK, f, e1)" and "frame_crc cb f \<noteq> crc f"
  shows "rscpHandle cb t f0 e = (RSCP_ERR_MALFORMED, e1)"
  using assms by (simp add: rscpHandle_def)

lemma rscpHandle_dispatch_sent:
  assumes "rscpGetMsg t f0 e = (RSCP_ERR_OK, f, e1)" and "frame_crc cb f = crc f"
  shows "\<exists>reply. sent (snd (rscpHandle cb t f0 e)) = sent e @ [reply]"
proof -
  from rscpGetMsg_logs [OF assms(1)] have s: "sent e1 = sent e" by simp
  show ?thesis
    using assms s
    by (simp add: rscpHandle_def rscpGetCPUQuery_def rscpGetShutterPosition_def
        rscpGetSwitchRelay_def rscpGetSwitchButton_def rscpSendFail_def set_call_def
        rscpSendMsg_sent Let_def split: prod.splits)
qed

lemma rscpHandle_unknown:
  assumes "rscpGetMsg t f0 e = (RSCP_ERR_OK, f, e1)" and "frame_crc cb f = crc f"
    and "command f \<notin> RSCP_catalog"
  shows "sent (snd (rscpHandle cb t f0 e)) =
           sent e @ [rscpSendMsg_txBuffer cb (command f) [0xFC] 1]
         \<and> dev_calls (snd (rscpHandle cb t f0 e)) = dev_calls e"
proof -
  from rscpGetMsg_logs [OF assms(1)] have s: "sent e1 = sent e" "dev_calls e1 = dev_calls e"
    by simp_all
  show ?thesis
    using assms s
    by (simp add: rscpHandle_def RSCP_catalog_def rscpSendFail_def rscpSendFail_byte
        rscpSendMsg_sent rscpSendMsg_dev_calls)
qed

subsection \<open>Slave: one reply for every dispatched frame\<close>

text \<open>
  C6: when \<^verbatim>\<open>rscpHandle\<close> has received a structurally complete frame
  (\<^verbatim>\<open>rscpGetMsg\<close> returned \<open>RSCP_ERR_OK\<close>), it hands exactly one reply to
  \<^verbatim>\<open>rscpSendSlotCallback\<close> if the recomputed CRC equals the received one, and none
  otherwise; on a mismatch it returns \<open>RSCP_ERR_MALFORMED\<close>, calls no device callback and
  sends nothing; a frame with a valid CRC and a command outside the catalog is answered
  with one frame carrying the byte of \<open>RSCP_ERR_NOT_SUPPORTED\<close> (0xFC).
\<close>

theorem rscpHandle_reply_iff_crc:
  assumes "rscpGetMsg t f0 e = (RSCP_ERR_OK, f, e1)"
  shows "(frame_crc cb f = crc f \<longrightarrow>
            (\<exists>reply. sent (snd (rscpHandle cb t f0 e)) = sent e @ [reply]))
       \<and> (frame_crc cb f \<noteq> crc f \<longrightarrow>
            rscpHandle cb t f0 e = (RSCP_ERR_MALFORMED, e1)
            \<and> sent e1 = sent e \<and> dev_calls e1 = dev_calls e)
       \<and> (frame_crc cb f = crc f \<and> command f \<notin> RSCP_catalog \<longrightarrow>
            sent (snd (rscpHandle cb t f0 e)) =
              sent e @ [[RSCP_PREAMBLE_BYTE, 3, command f, of_int RSCP_ERR_NOT_SUPPORTED,
                         ucast (drop_bit 8 (rscpGetCrcCallback cb [3, command f, 0xFC])),
                         ucast (rscpGetCrcCallback cb [3, command f, 0xFC])]]
            \<and> dev_calls (snd (rscpHandle cb t f0 e)) = dev_calls e)"
  using rscpHandle_dispatch_sent [OF assms] rscpHandle_malformed [OF assms]
    rscpHandle_unknown [OF assms] rscpGetMsg_logs [OF assms]
  by (simp add: rscpSendMsg_one rscpSendFail_byte)

theorem rscpHandle_reply_iff_crc_witness:
  "sent (snd (rscpHandle cb0 0 frame0 (env0 (map Some [0xAA, 2, 0x55, 0x12, 0x8B])))) =
     [[0xAA, 3, 0x55, 0xFC, 0x13, 0x88]]
   \<and> rscpHandle cb0 0 frame0 (env0 (map Some [0xAA, 2, 0x55, 0x12, 0x8C])) =
       (RSCP_ERR_MALFORMED, (env0 [])\<lparr>polls := 5\<rparr>)"
proof -
  let ?A = "env0 (map Some [0xAA, 2, 0x55, 0x12, 0x8B])"
  let ?fA = "frame0\<lparr>length_f := 2, command := 0x55, crc := 0x128B\<rparr>"
  let ?B = "env0 (map Some [0xAA, 2, 0x55, 0x12, 0x8C])"
  let ?fB = "frame0\<lparr>length_f := 2, command := 0x55, crc := 0x128C\<rparr>"
  have gA: "rscpGetMsg 0 frame0 ?A = (RSCP_ERR_OK, ?fA, (env0 [])\<lparr>polls := 5\<rparr>)"
    by code_simp
  have cA: "frame_crc cb0 ?fA = crc ?fA" by code_simp
  have nA: "command ?fA \<notin> RSCP_catalog" by code_simp
  have bytes: "[RSCP_PREAMBLE_BYTE, 3, command ?fA, of_int RSCP_ERR_NOT_SUPPORTED,
                 ucast (drop_bit 8 (rscpGetCrcCallback cb0 [3, command ?fA, 0xFC])),
                 ucast (rscpGetCrcCallback cb0 [3, command ?fA, 0xFC])]
               = [0xAA, 3, 0x55, 0xFC, 0x13, 0x88 :: u8]"
    by code_simp
  have sA: "sent ?A = []" by (simp add: env0_def)
  have gB: "rscpGetMsg 0 frame0 ?B = (RSCP_ERR_OK, ?fB, (env0 [])\<lparr>polls := 5\<rparr>)"
    by code_simp
  have cB: "frame_crc cb0 ?fB \<noteq> crc ?fB" by code_simp
  from rscpHandle_reply_iff_crc [OF gA, of cb0] cA nA
  have "sent (snd (rscpHandle cb0 0 frame0 ?A)) = sent ?A @ [[0xAA, 3, 0x55, 0xFC, 0x13, 0x88]]"
    unfolding bytes by blast
  moreover from rscpHandle_reply_iff_crc [OF gB, of cb0] cB
  have "rscpHandle cb0 0 frame0 ?B = (RSCP_ERR_MALFORMED, (env0 [])\<lparr>polls := 5\<rparr>)"
    by blast
  ultimately show ?thesis using sA by simp
qed

subsection \<open>Master: a reply to another command\<close>

text \<open>
  C7: in a transaction of \<^verbatim>\<open>rscpRequestData\<close> or \<^verbatim>\<open>rscpSendAction\<close> whose request was
  sent, whose receive slot was granted and whose reply frame arrived whole with a valid
  CRC, a reply command other than the request's makes the call return
  \<open>RSCP_ERR_INVALID_ANSWER\<close>; \<^verbatim>\<open>rscpRequestData\<close> then leaves the caller's reply buffer
  as it was.
\<close>

theorem master_mismatched_reply:
  "(rscpSendMsg cb cmd [0x00] 1 e = (RSCP_ERR_OK, e1)
      \<and> rscpRequestSlotCallback cb (1 + 1 + 1 + ucast replyLength + 2)
      \<and> rscpGetMsg t f0 (e1\<lparr>requested := requested e1 @ [1 + 1 + 1 + ucast replyLength + 2]\<rparr>)
          = (RSCP_ERR_OK, f, e3)
      \<and> frame_crc cb f = crc f \<and> command f \<noteq> cmd
    \<longrightarrow> rscpRequestData cb cmd reply replyLength t f0 e = (RSCP_ERR_INVALID_ANSWER, reply, e3))
   \<and> (rscpSendMsg cb cmd dat dataLength e = (RSCP_ERR_OK, e1')
      \<and> rscpRequestSlotCallback cb (1 + 1 + 1 + 1 + 2)
      \<and> rscpGetMsg t f0 (e1'\<lparr>requested := requested e1' @ [1 + 1 + 1 + 1 + 2]\<rparr>)
          = (RSCP_ERR_OK, f', e3')
      \<and> frame_crc cb f' = crc f' \<and> command f' \<noteq> cmd
    \<longrightarrow> rscpSendAction cb cmd dat dataLength t f0 e = (RSCP_ERR_INVALID_ANSWER, e3'))"
  by (simp add: rscpRequestData_def rscpSendAction_def Let_def)

theorem master_mismatched_reply_witness:
  "rscpRequestData cb0 3 [1, 2, 3] 3 0 frame0 (env0 (map Some [0xAA, 2, 9, 0x12, 0x3F])) =
     (RSCP_ERR_INVALID_ANSWER, [1, 2, 3],
      (env0 [])\<lparr>polls := 5, sent := [[0xAA, 3, 3, 0, 0x12, 0x3A]], requested := [8]\<rparr>)
   \<and> rscpSendAction cb0 7 [2] 1 0 frame0 (env0 (map Some [0xAA, 3, 9, 0, 0x12, 0x40])) =
     (RSCP_ERR_INVALID_ANSWER,
      (env0 [])\<lparr>polls := 6, sent := [[0xAA, 3, 7, 2, 0x12, 0x40]], requested := [6]\<rparr>)"
proof -
  let ?A = "env0 (map Some [0xAA, 2, 9, 0x12, 0x3F])"
  let ?A1 = "?A\<lparr>sent := [[0xAA, 3, 3, 0, 0x12, 0x3A]]\<rparr>"
  let ?fA = "frame0\<lparr>length_f := 2, command := 9, crc := 0x123F\<rparr>"
  let ?A3 = "(env0 [])\<lparr>polls := 5, sent := [[0xAA, 3, 3, 0, 0x12, 0x3A]], requested := [8]\<rparr>"
  let ?B = "env0 (map Some [0xAA, 3, 9, 0, 0x12, 0x40])"
  let ?B1 = "?B\<lparr>sent := [[0xAA, 3, 7, 2, 0x12, 0x40]]\<rparr>"
  let ?fB = "frame0\<lparr>length_f := 3, command := 9, data := 0 # replicate 25 0xEE, crc := 0x1240\<rparr>"
  let ?B3 = "(env0 [])\<lparr>polls := 6, sent := [[0xAA, 3, 7, 2, 0x12, 0x40]], requested := [6]\<rparr>"
  have "rscpSendMsg cb0 3 [0x00] 1 ?A = (RSCP_ERR_OK, ?A1)" by code_simp
  moreover have "rscpRequestSlotCallback cb0 (1 + 1 + 1 + ucast (3 :: u8) + 2)" by code_simp
  moreover have "rscpGetMsg 0 frame0 (?A1\<lparr>requested := requested ?A1 @ [1 + 1 + 1 + ucast (3 :: u8) + 2]\<rparr>)
                   = (RSCP_ERR_OK, ?fA, ?A3)" by code_simp
  moreover have "frame_crc cb0 ?fA = crc ?fA" by code_simp
  moreover have "command ?fA \<noteq> 3" by code_simp
  ultimately have A: "rscpRequestData cb0 3 [1, 2, 3] 3 0 frame0 ?A =
      (RSCP_ERR_INVALID_ANSWER, [1, 2, 3], ?A3)"
    using master_mismatched_reply [where cb = cb0 and cmd = 3 and e = ?A and ?e1.0 = ?A1
        and replyLength = 3 and t = 0 and ?f0.0 = frame0 and f = ?fA and ?e3.0 = ?A3
        and reply = "[1, 2, 3]"]
    by blast
  have "rscpSendMsg cb0 7 [2] 1 ?B = (RSCP_ERR_OK, ?B1)" by code_simp
  moreover have "rscpRequestSlotCallback cb0 (1 + 1 + 1 + 1 + 2)" by code_simp
  moreover have "rscpGetMsg 0 frame0 (?B1\<lparr>requested := requested ?B1 @ [1 + 1 + 1 + 1 + 2]\<rparr>)
                   = (RSCP_ERR_OK, ?fB, ?B3)" by code_simp
  moreover have "frame_crc cb0 ?fB = crc ?fB" by code_simp
  moreover have "command ?fB \<noteq> 7" by code_simp
  ultimately have B: "rscpSendAction cb0 7 [2] 1 0 frame0 ?B = (RSCP_ERR_INVALID_ANSWER, ?B3)"
    using master_mismatched_reply [where cb = cb0 and cmd = 7 and e = ?B and e1' = ?B1
        and dat = "[2]" and dataLength = 1 and t = 0 and ?f0.0 = frame0 and f' = ?fB
        and e3' = ?B3]
    by blast
  from A B show ?thesis by simp
qed

subsection \<open>The request of \<^verbatim>\<open>rscpRequestData\<close>\<close>

text \<open>
  C8 says the request carries no data byte and the length byte 2. The code sends
  \<^verbatim>\<open>uint8_t data [] = { 0x00 }\<close> with \<^verbatim>\<open>sizeof(data)\<close>, which is 1: the request for
  command 3 has the length byte 3 and one data byte.
\<close>

theorem request_frame_counterexample:
  "sent (snd (snd (rscpRequestData cb0 3 [] 0 0 frame0 (env0 [])))) = [[0xAA, 3, 3, 0, 0x12, 0x3A]]
   \<and> hd (sent (snd (snd (rscpRequestData cb0 3 [] 0 0 frame0 (env0 []))))) ! 1 \<noteq> 2"
  by code_simp

text \<open>
  C8 (amended): for every command, the request frame \<^verbatim>\<open>rscpRequestData\<close> hands to the
  transport carries exactly one data byte, the placeholder 0x00: it is the preamble, the
  length byte 3, the command, 0x00 and the two CRC bytes (high byte first) of the CRC
  over length, command and placeholder. This holds whatever the call returns.
\<close>

theorem rscpRequestData_request_frame:
  "sent (snd (snd (rscpRequestData cb cmd reply replyLength t f0 e))) =
     sent e @ [[RSCP_PREAMBLE_BYTE, 3, cmd, 0x00,
                ucast (drop_bit 8 (rscpGetCrcCallback cb [3, cmd, 0x00])),
                ucast (rscpGetCrcCallback cb [3, cmd, 0x00])]]"
proof -
  have tx: "rscpSendMsg_txBuffer cb cmd [0x00] 1 =
      [RSCP_PREAMBLE_BYTE, 3, cmd, 0x00,
       ucast (drop_bit 8 (rscpGetCrcCallback cb [3, cmd, 0x00])),
       ucast (rscpGetCrcCallback cb [3, cmd, 0x00])]"
    by (simp add: rscpSendMsg_txBuffer_def Let_def ucast_low_byte ucast_high_byte)
  obtain r e1 where s: "rscpSendMsg cb cmd [0x00] 1 e = (r, e1)" by force
  then have e1: "sent e1 = sent e @ [rscpSendMsg_txBuffer cb cmd [0x00] 1]"
    using rscpSendMsg_sent [of cb cmd "[0x00]" 1 e] by simp
  let ?e2 = "e1\<lparr>requested := requested e1 @ [1 + 1 + 1 + ucast replyLength + 2]\<rparr>"
  obtain r' f e3 where g: "rscpGetMsg t f0 ?e2 = (r', f, e3)"
    by (metis prod_cases3)
  from rscpGetMsg_logs [OF g] have "sent e3 = sent e1" by simp
  with s g e1 tx show ?thesis
    by (simp add: rscpRequestData_def Let_def)
qed

subsection \<open>Running the receive loop on bytes that are ready\<close>

lemma rscpGetMsg_loop_step:
  "bufferIndex v < 26 \<Longrightarrow>
   rscpGetMsg_loop sw t v (feed e (Some b # bs) p) =
     (case sw b v of
        Return err v' \<Rightarrow> (err, v', feed e bs (Suc p))
      | Break v' \<Rightarrow> rscpGetMsg_loop sw t v' (feed e bs (Suc p)))"
  by (subst rscpGetMsg_loop_ready [where b = b and bs = bs])
     (simp_all add: feed_def sizeof_data_def split: flow.split)

lemma feed_self: "feed e (rx e) (polls e) = e"
  by (simp add: feed_def)

lemma switch_length:
  "b \<noteq> RSCP_PREAMBLE_BYTE \<Longrightarrow>
   rscpGetMsg_switch b \<lparr>bufferIndex = i, rscpRxStatus = 0, frame = f, data_writes = w\<rparr> =
     Break \<lparr>bufferIndex = i, rscpRxStatus = 1, frame = f\<lparr>length_f := b\<rparr>, data_writes = w\<rparr>"
  by (simp add: rscpGetMsg_switch_def)

lemma switch_preamble:
  "rscpGetMsg_switch RSCP_PREAMBLE_BYTE
     \<lparr>bufferIndex = i, rscpRxStatus = 0, frame = f, data_writes = w\<rparr> =
   Break \<lparr>bufferIndex = i, rscpRxStatus = 0, frame = f, data_writes = w\<rparr>"
  by (simp add: rscpGetMsg_switch_def)

lemma switch_command:
  "rscpGetMsg_switch b \<lparr>bufferIndex = i, rscpRxStatus = 1, frame = f, data_writes = w\<rparr> =
     Break \<lparr>bufferIndex = i, rscpRxStatus = (if length_f f > 2 then 2 else 3),
            frame = f\<lparr>command := b\<rparr>, data_writes = w\<rparr>"
  by (simp add: rscpGetMsg_switch_def Let_def)

lemma switch_crc_hi:
  "rscpGetMsg_switch b \<lparr>bufferIndex = i, rscpRxStatus = 3, frame = f, data_writes = w\<rparr> =
     Break \<lparr>bufferIndex = i, rscpRxStatus = 4, frame = f\<lparr>crc := push_bit 8 (ucast b)\<rparr>,
            data_writes = w\<rparr>"
  by (simp add: rscpGetMsg_switch_def)

lemma switch_crc_lo:
  "rscpGetMsg_switch b \<lparr>bufferIndex = i, rscpRxStatus = 4, frame = f, data_writes = w\<rparr> =
     Return RSCP_ERR_OK
       \<lparr>bufferIndex = i, rscpRxStatus = 4, frame = f\<lparr>crc := crc f OR ucast b\<rparr>,
        data_writes = w\<rparr>"
  by (simp add: rscpGetMsg_switch_def)

lemma rscpGetMsg_loop_preambles:
  "i < 26 \<Longrightarrow>
   rscpGetMsg_loop rscpGetMsg_switch t
     \<lparr>bufferIndex = i, rscpRxStatus = 0, frame = f, data_writes = w\<rparr>
     (feed e (replicate n (Some RSCP_PREAMBLE_BYTE) @ bs) p) =
   rscpGetMsg_loop rscpGetMsg_switch t
     \<lparr>bufferIndex = i, rscpRxStatus = 0, frame = f, data_writes = w\<rparr>
     (feed e bs (p + n))"
  by (induction n arbitrary: p) (simp_all add: rscpGetMsg_loop_step switch_preamble)

lemma rscpGetMsg_run_no_data:
  assumes "l \<noteq> RSCP_PREAMBLE_BYTE" and "l \<le> 2"
    and "rx e = replicate n (Some RSCP_PREAMBLE_BYTE) @ Some l # Some c # Some h # Some lo # rest"
  shows "rscpGetMsg_run t f e =
    (RSCP_ERR_OK,
     \<lparr>bufferIndex = 0, rscpRxStatus = 4,
      frame = f\<lparr>length_f := l, command := c, crc := push_bit 8 (ucast h) OR ucast lo\<rparr>,
      data_writes = []\<rparr>,
     e\<lparr>rx := rest, polls := polls e + n + 4\<rparr>)"
proof -
  from assms(2) have nd: "\<not> 2 < l" by simp
  have "rscpGetMsg_run t f e = rscpGetMsg_run t f
     (feed e (replicate n (Some RSCP_PREAMBLE_BYTE) @ Some l # Some c # Some h # Some lo # rest)
        (polls e))"
    using feed_self [of e] assms(3) by simp
  also have "\<dots> = (RSCP_ERR_OK,
     \<lparr>bufferIndex = 0, rscpRxStatus = 4,
      frame = f\<lparr>length_f := l, command := c, crc := push_bit 8 (ucast h) OR ucast lo\<rparr>,
      data_writes = []\<rparr>,
     feed e rest (Suc (Suc (Suc (Suc (polls e + n))))))"
    using assms(1) nd
    by (simp add: rscpGetMsg_run_def rx_vars_init_def rscpGetMsg_loop_preambles
        rscpGetMsg_loop_step switch_length switch_command switch_crc_hi switch_crc_lo)
  finally show ?thesis by (simp add: feed_def)
qed

lemma rscpGetMsg_no_data:
  assumes "l \<noteq> RSCP_PREAMBLE_BYTE" and "l \<le> 2"
    and "rx e = replicate n (Some RSCP_PREAMBLE_BYTE) @ Some l # Some c # Some h # Some lo # rest"
  shows "rscpGetMsg t f e =
    (RSCP_ERR_OK, f\<lparr>length_f := l, command := c, crc := push_bit 8 (ucast h) OR ucast lo\<rparr>,
     e\<lparr>rx := rest, polls := polls e + n + 4\<rparr>)"
  by (simp add: rscpGetMsg_def rscpGetMsg_run_no_data [OF assms])

subsection \<open>Slave: the set commands\<close>

lemma rscpHandle_set_result:
  assumes g: "rscpGetMsg t f0 e = (RSCP_ERR_OK, f, e1)" and c: "frame_crc cb f = crc f"
    and cmd: "command f = c"
    and sel: "(c, k, callback) \<in> {(RSCP_CMD_SET_SHUTTER_ACTION, 3, rscpSetShutterActionCallback cb),
      (RSCP_CMD_SET_SHUTTER_POSITION, 2, rscpSetShutterPositionCallback cb),
      (RSCP_CMD_SET_SWITCH_RELAY, 1, rscpSetSwitchRelayCallback cb),
      (RSCP_CMD_SET_BUZZER_ACTION, 9, rscpSetBuzzerActionCallback cb)}"
  shows "rscpHandle cb t f0 e =
           rscpSendFail cb c (of_int (callback (take k (data f))))
             (e1\<lparr>dev_calls := dev_calls e1 @ [(c, take k (data f))]\<rparr>)"
  using g c cmd sel
  by (auto simp: rscpHandle_def set_call_def RSCP_CMD_defs Let_def)

lemma rscpHandle_set_effects:
  assumes g: "rscpGetMsg t f0 e = (RSCP_ERR_OK, f, e1)" and c: "frame_crc cb f = crc f"
    and cmd: "command f = c"
    and sel: "(c, k, callback) \<in> {(RSCP_CMD_SET_SHUTTER_ACTION, 3, rscpSetShutterActionCallback cb),
      (RSCP_CMD_SET_SHUTTER_POSITION, 2, rscpSetShutterPositionCallback cb),
      (RSCP_CMD_SET_SWITCH_RELAY, 1, rscpSetSwitchRelayCallback cb),
      (RSCP_CMD_SET_BUZZER_ACTION, 9, rscpSetBuzzerActionCallback cb)}"
  shows "dev_calls (snd (rscpHandle cb t f0 e)) = dev_calls e @ [(c, take k (data f))]
       \<and> sent (snd (rscpHandle cb t f0 e)) =
           sent e @ [ack_frame cb c (of_int (callback (take k (data f))))]"
proof -
  from rscpGetMsg_logs [OF g] have l: "dev_calls e1 = dev_calls e" "sent e1 = sent e"
    by simp_all
  show ?thesis
    unfolding rscpHandle_set_result [OF assms]
    by (simp add: rscpSendFail_def rscpSendMsg_sent rscpSendMsg_dev_calls rscpSendMsg_one
        ack_frame_def l)
qed

text \<open>
  C10: for a received frame with a valid CRC whose command is one of the four set
  commands, \<^verbatim>\<open>rscpHandle\<close> calls that command's device callback on the first bytes of
  \<^verbatim>\<open>frame.data\<close> (3, 2, 1 and 9 of them), whatever the length field is, and answers with
  the frame \<^verbatim>\<open>rscpSendFail\<close> builds from the command and the byte of what that callback
  returned on those bytes. In particular a buzzer frame of length 2, which carries no
  data byte, makes it call \<^verbatim>\<open>rscpSetBuzzerActionCallback\<close> on the 9 bytes the local
  \<^verbatim>\<open>frame\<close> held before the frame was received, and acknowledge with that call's result.
\<close>

theorem rscpHandle_set_dispatch_unchecked:
  "(rscpGetMsg t f0 e = (RSCP_ERR_OK, f, e1) \<and> frame_crc cb f = crc f \<longrightarrow>
      (command f = RSCP_CMD_SET_SHUTTER_ACTION \<longrightarrow>
         dev_calls (snd (rscpHandle cb t f0 e)) =
           dev_calls e @ [(RSCP_CMD_SET_SHUTTER_ACTION, take 3 (data f))]
         \<and> sent (snd (rscpHandle cb t f0 e)) =
             sent e @ [ack_frame cb RSCP_CMD_SET_SHUTTER_ACTION
                         (of_int (rscpSetShutterActionCallback cb (take 3 (data f))))]
         \<and> rscpHandle cb t f0 e =
             rscpSendFail cb RSCP_CMD_SET_SHUTTER_ACTION
               (of_int (rscpSetShutterActionCallback cb (take 3 (data f))))
               (e1\<lparr>dev_calls := dev_calls e1 @
                     [(RSCP_CMD_SET_SHUTTER_ACTION, take 3 (data f))]\<rparr>))
    \<and> (command f = RSCP_CMD_SET_SHUTTER_POSITION \<longrightarrow>
         dev_calls (snd (rscpHandle cb t f0 e)) =
           dev_calls e @ [(RSCP_CMD_SET_SHUTTER_POSITION, take 2 (data f))]
         \<and> sent (snd (rscpHandle cb t f0 e)) =
             sent e @ [ack_frame cb RSCP_CMD_SET_SHUTTER_POSITION
                         (of_int (rscpSetShutterPositionCallback cb (take 2 (data f))))]
         \<and> rscpHandle cb t f0 e =
             rscpSendFail cb RSCP_CMD_SET_SHUTTER_POSITION
               (of_int (rscpSetShutterPositionCallback cb (take 2 (data f))))
               (e1\<lparr>dev_calls := dev_calls e1 @
                     [(RSCP_CMD_SET_SHUTTER_POSITION, take 2 (data f))]\<rparr>))
    \<and> (command f = RSCP_CMD_SET_SWITCH_RELAY \<longrightarrow>
         dev_calls (snd (rscpHandle cb t f0 e)) =
           dev_calls e @ [(RSCP_CMD_SET_SWITCH_RELAY, take 1 (data f))]
         \<and> sent (snd (rscpHandle cb t f0 e)) =
             sent e @ [ack_frame cb RSCP_CMD_SET_SWITCH_RELAY
                         (of_int (rscpSetSwitchRelayCallback cb (take 1 (data f))))]
         \<and> rscpHandle cb t f0 e =
             rscpSendFail cb RSCP_CMD_SET_SWITCH_RELAY
               (of_int (rscpSetSwitchRelayCallback cb (take 1 (data f))))
               (e1\<lparr>dev_calls := dev_calls e1 @
                     [(RSCP_CMD_SET_SWITCH_RELAY, take 1 (data f))]\<rparr>))
    \<and> (command f = RSCP_CMD_SET_BUZZER_ACTION \<longrightarrow>
         dev_calls (snd (rscpHandle cb t f0 e)) =
           dev_calls e @ [(RSCP_CMD_SET_BUZZER_ACTION, take 9 (data f))]
         \<and> sent (snd (rscpHandle cb t f0 e)) =
             sent e @ [ack_frame cb RSCP_CMD_SET_BUZZER_ACTION
                         (of_int (rscpSetBuzzerActionCallback cb (take 9 (data f))))]
         \<and> rscpHandle cb t f0 e =
             rscpSendFail cb RSCP_CMD_SET_BUZZER_ACTION
               (of_int (rscpSetBuzzerActionCallback cb (take 9 (data f))))
               (e1\<lparr>dev_calls := dev_calls e1 @
                     [(RSCP_CMD_SET_BUZZER_ACTION, take 9 (data f))]\<rparr>)))
   \<and> (rx e = map Some [RSCP_PREAMBLE_BYTE, 2, RSCP_CMD_SET_BUZZER_ACTION,
                        ucast (drop_bit 8 c), ucast c] @ rest
      \<and> c = rscpGetCrcCallback cb [2, RSCP_CMD_SET_BUZZER_ACTION] \<longrightarrow>
      dev_calls (snd (rscpHandle cb t f0 e)) =
        dev_calls e @ [(RSCP_CMD_SET_BUZZER_ACTION, take 9 (data f0))]
      \<and> sent (snd (rscpHandle cb t f0 e)) =
          sent e @ [ack_frame cb RSCP_CMD_SET_BUZZER_ACTION
                      (of_int (rscpSetBuzzerActionCallback cb (take 9 (data f0))))])"
proof -
  have gen: "command f = c' \<longrightarrow>
      dev_calls (snd (rscpHandle cb t f0 e)) = dev_calls e @ [(c', take k (data f))]
      \<and> sent (snd (rscpHandle cb t f0 e)) =
          sent e @ [ack_frame cb c' (of_int (callback (take k (data f))))]
      \<and> rscpHandle cb t f0 e =
          rscpSendFail cb c' (of_int (callback (take k (data f))))
            (e1\<lparr>dev_calls := dev_calls e1 @ [(c', take k (data f))]\<rparr>)"
    if g: "rscpGetMsg t f0 e = (RSCP_ERR_OK, f, e1)" and c: "frame_crc cb f = crc f"
      and sel: "(c', k, callback) \<in>
        {(RSCP_CMD_SET_SHUTTER_ACTION, 3, rscpSetShutterActionCallback cb),
         (RSCP_CMD_SET_SHUTTER_POSITION, 2, rscpSetShutterPositionCallback cb),
         (RSCP_CMD_SET_SWITCH_RELAY, 1, rscpSetSwitchRelayCallback cb),
         (RSCP_CMD_SET_BUZZER_ACTION, 9, rscpSetBuzzerActionCallback cb)}"
    for c' k callback
  proof (rule impI)
    assume m: "command f = c'"
    note ef = rscpHandle_set_effects [OF g c m sel]
    show "dev_calls (snd (rscpHandle cb t f0 e)) = dev_calls e @ [(c', take k (data f))]
      \<and> sent (snd (rscpHandle cb t f0 e)) =
          sent e @ [ack_frame cb c' (of_int (callback (take k (data f))))]
      \<and> rscpHandle cb t f0 e =
          rscpSendFail cb c' (of_int (callback (take k (data f))))
            (e1\<lparr>dev_calls := dev_calls e1 @ [(c', take k (data f))]\<rparr>)"
      by (rule conjI [OF ef [THEN conjunct1]
            conjI [OF ef [THEN conjunct2] rscpHandle_set_result [OF g c m sel]]])
  qed
  have buzzer: "dev_calls (snd (rscpHandle cb t f0 e)) =
        dev_calls e @ [(RSCP_CMD_SET_BUZZER_ACTION, take 9 (data f0))]
      \<and> sent (snd (rscpHandle cb t f0 e)) =
          sent e @ [ack_frame cb RSCP_CMD_SET_BUZZER_ACTION
                      (of_int (rscpSetBuzzerActionCallback cb (take 9 (data f0))))]"
    if rx: "rx e = map Some [RSCP_PREAMBLE_BYTE, 2, RSCP_CMD_SET_BUZZER_ACTION,
                        ucast (drop_bit 8 c), ucast c] @ rest"
      and c: "c = rscpGetCrcCallback cb [2, RSCP_CMD_SET_BUZZER_ACTION]"
  proof -
    let ?f = "f0\<lparr>length_f := 2, command := RSCP_CMD_SET_BUZZER_ACTION, crc := c\<rparr>"
    have "rscpGetMsg t f0 e =
            (RSCP_ERR_OK,
             f0\<lparr>length_f := 2, command := RSCP_CMD_SET_BUZZER_ACTION,
                crc := push_bit 8 (ucast (ucast (drop_bit 8 c) :: u8)) OR ucast (ucast c :: u8)\<rparr>,
             e\<lparr>rx := rest, polls := polls e + 1 + 4\<rparr>)"
      using rx by (intro rscpGetMsg_no_data) (simp_all add: RSCP_PREAMBLE_BYTE_def)
    then have g: "rscpGetMsg t f0 e =
        (RSCP_ERR_OK, ?f, e\<lparr>rx := rest, polls := polls e + 1 + 4\<rparr>)"
      by (simp only: crc_reassemble)
    have k: "frame_crc cb ?f = crc ?f"
      by (simp add: frame_crc_def RSCP_frame_bytes_def c)
    have m: "command ?f = RSCP_CMD_SET_BUZZER_ACTION" by simp
    have sel: "(RSCP_CMD_SET_BUZZER_ACTION, 9, rscpSetBuzzerActionCallback cb) \<in>
        {(RSCP_CMD_SET_SHUTTER_ACTION, 3, rscpSetShutterActionCallback cb),
         (RSCP_CMD_SET_SHUTTER_POSITION, 2, rscpSetShutterPositionCallback cb),
         (RSCP_CMD_SET_SWITCH_RELAY, 1, rscpSetSwitchRelayCallback cb),
         (RSCP_CMD_SET_BUZZER_ACTION, 9, rscpSetBuzzerActionCallback cb)}"
      by simp
    have d: "data ?f = data f0" by simp
    from rscpHandle_set_effects [OF g k m sel] show ?thesis
      unfolding d .
  qed
  have part1: "(command f = RSCP_CMD_SET_SHUTTER_ACTION \<longrightarrow>
         dev_calls (snd (rscpHandle cb t f0 e)) =
           dev_calls e @ [(RSCP_CMD_SET_SHUTTER_ACTION, take 3 (data f))]
         \<and> sent (snd (rscpHandle cb t f0 e)) =
             sent e @ [ack_frame cb RSCP_CMD_SET_SHUTTER_ACTION
                         (of_int (rscpSetShutterActionCallback cb (take 3 (data f))))]
         \<and> rscpHandle cb t f0 e =
             rscpSendFail cb RSCP_CMD_SET_SHUTTER_ACTION
               (of_int (rscpSetShutterActionCallback cb (take 3 (data f))))
               (e1\<lparr>dev_calls := dev_calls e1 @
                     [(RSCP_CMD_SET_SHUTTER_ACTION, take 3 (data f))]\<rparr>))
    \<and> (command f = RSCP_CMD_SET_SHUTTER_POSITION \<longrightarrow>
         dev_calls (snd (rscpHandle cb t f0 e)) =
           dev_calls e @ [(RSCP_CMD_SET_SHUTTER_POSITION, take 2 (data f))]
         \<and> sent (snd (rscpHandle cb t f0 e)) =
             sent e @ [ack_frame cb RSCP_CMD_SET_SHUTTER_POSITION
                         (of_int (rscpSetShutterPositionCallback cb (take 2 (data f))))]
         \<and> rscpHandle cb t f0 e =
             rscpSendFail cb RSCP_CMD_SET_SHUTTER_POSITION
               (of_int (rscpSetShutterPositionCallback cb (take 2 (data f))))
               (e1\<lparr>dev_calls := dev_calls e1 @
                     [(RSCP_CMD_SET_SHUTTER_POSITION, take 2 (data f))]\<rparr>))
    \<and> (command f = RSCP_CMD_SET_SWITCH_RELAY \<longrightarrow>
         dev_calls (snd (rscpHandle cb t f0 e)) =
           dev_calls e @ [(RSCP_CMD_SET_SWITCH_RELAY, take 1 (data f))]
         \<and> sent (snd (rscpHandle cb t f0 e)) =
             sent e @ [ack_frame cb RSCP_CMD_SET_SWITCH_RELAY
                         (of_int (rscpSetSwitchRelayCallback cb (take 1 (data f))))]
         \<and> rscpHandle cb t f0 e =
             rscpSendFail cb RSCP_CMD_SET_SWITCH_RELAY
               (of_int (rscpSetSwitchRelayCallback cb (take 1 (data f))))
               (e1\<lparr>dev_calls := dev_calls e1 @
                     [(RSCP_CMD_SET_SWITCH_RELAY, take 1 (data f))]\<rparr>))
    \<and> (command f = RSCP_CMD_SET_BUZZER_ACTION \<longrightarrow>
         dev_calls (snd (rscpHandle cb t f0 e)) =
           dev_calls e @ [(RSCP_CMD_SET_BUZZER_ACTION, take 9 (data f))]
         \<and> sent (snd (rscpHandle cb t f0 e)) =
             sent e @ [ack_frame cb RSCP_CMD_SET_BUZZER_ACTION
                         (of_int (rscpSetBuzzerActionCallback cb (take 9 (data f))))]
         \<and> rscpHandle cb t f0 e =
             rscpSendFail cb RSCP_CMD_SET_BUZZER_ACTION
               (of_int (rscpSetBuzzerActionCallback cb (take 9 (data f))))
               (e1\<lparr>dev_calls := dev_calls e1 @
                     [(RSCP_CMD_SET_BUZZER_ACTION, take 9 (data f))]\<rparr>))"
    if g: "rscpGetMsg t f0 e = (RSCP_ERR_OK, f, e1)" and c: "frame_crc cb f = crc f"
  proof -
    have s1: "(RSCP_CMD_SET_SHUTTER_ACTION, 3, rscpSetShutterActionCallback cb) \<in>
        {(RSCP_CMD_SET_SHUTTER_ACTION, 3, rscpSetShutterActionCallback cb),
         (RSCP_CMD_SET_SHUTTER_POSITION, 2, rscpSetShutterPositionCallback cb),
         (RSCP_CMD_SET_SWITCH_RELAY, 1, rscpSetSwitchRelayCallback cb),
         (RSCP_CMD_SET_BUZZER_ACTION, 9, rscpSetBuzzerActionCallback cb)}" by simp
    have s2: "(RSCP_CMD_SET_SHUTTER_POSITION, 2, rscpSetShutterPositionCallback cb) \<in>
        {(RSCP_CMD_SET_SHUTTER_ACTION, 3, rscpSetShutterActionCallback cb),
         (RSCP_CMD_SET_SHUTTER_POSITION, 2, rscpSetShutterPositionCallback cb),
         (RSCP_CMD_SET_SWITCH_RELAY, 1, rscpSetSwitchRelayCallback cb),
         (RSCP_CMD_SET_BUZZER_ACTION, 9, rscpSetBuzzerActionCallback cb)}" by simp
    have s3: "(RSCP_CMD_SET_SWITCH_RELAY, 1, rscpSetSwitchRelayCallback cb) \<in>
        {(RSCP_CMD_SET_SHUTTER_ACTION, 3, rscpSetShutterActionCallback cb),
         (RSCP_CMD_SET_SHUTTER_POSITION, 2, rscpSetShutterPositionCallback cb),
         (RSCP_CMD_SET_SWITCH_RELAY, 1, rscpSetSwitchRelayCallback cb),
         (RSCP_CMD_SET_BUZZER_ACTION, 9, rscpSetBuzzerActionCallback cb)}" by simp
    have s4: "(RSCP_CMD_SET_BUZZER_ACTION, 9, rscpSetBuzzerActionCallback cb) \<in>
        {(RSCP_CMD_SET_SHUTTER_ACTION, 3, rscpSetShutterActionCallback cb),
         (RSCP_CMD_SET_SHUTTER_POSITION, 2, rscpSetShutterPositionCallback cb),
         (RSCP_CMD_SET_SWITCH_RELAY, 1, rscpSetSwitchRelayCallback cb),
         (RSCP_CMD_SET_BUZZER_ACTION, 9, rscpSetBuzzerActionCallback cb)}" by simp
    show ?thesis
      by (rule conjI [OF gen [OF g c s1] conjI [OF gen [OF g c s2]
            conjI [OF gen [OF g c s3] gen [OF g c s4]]]])
  qed
  show ?thesis
  proof (rule conjI)
    show "rscpGetMsg t f0 e = (RSCP_ERR_OK, f, e1) \<and> frame_crc cb f = crc f \<longrightarrow>
      (command f = RSCP_CMD_SET_SHUTTER_ACTION \<longrightarrow>
         dev_calls (snd (rscpHandle cb t f0 e)) =
           dev_calls e @ [(RSCP_CMD_SET_SHUTTER_ACTION, take 3 (data f))]
         \<and> sent (snd (rscpHandle cb t f0 e)) =
             sent e @ [ack_frame cb RSCP_CMD_SET_SHUTTER_ACTION
                         (of_int (rscpSetShutterActionCallback cb (take 3 (data f))))]
         \<and> rscpHandle cb t f0 e =
             rscpSendFail cb RSCP_CMD_SET_SHUTTER_ACTION
               (of_int (rscpSetShutterActionCallback cb (take 3 (data f))))
               (e1\<lparr>dev_calls := dev_calls e1 @
                     [(RSCP_CMD_SET_SHUTTER_ACTION, take 3 (data f))]\<rparr>))
    \<and> (command f = RSCP_CMD_SET_SHUTTER_POSITION \<longrightarrow>
         dev_calls (snd (rscpHandle cb t f0 e)) =
           dev_calls e @ [(RSCP_CMD_SET_SHUTTER_POSITION, take 2 (data f))]
         \<and> sent (snd (rscpHandle cb t f0 e)) =
             sent e @ [ack_frame cb RSCP_CMD_SET_SHUTTER_POSITION
                         (of_int (rscpSetShutterPositionCallback cb (take 2 (data f))))]
         \<and> rscpHandle cb t f0 e =
             rscpSendFail cb RSCP_CMD_SET_SHUTTER_POSITION
               (of_int (rscpSetShutterPositionCallback cb (take 2 (data f))))
               (e1\<lparr>dev_calls := dev_calls e1 @
                     [(RSCP_CMD_SET_SHUTTER_POSITION, take 2 (data f))]\<rparr>))
    \<and> (command f = RSCP_CMD_SET_SWITCH_RELAY \<longrightarrow>
         dev_calls (snd (rscpHandle cb t f0 e)) =
           dev_calls e @ [(RSCP_CMD_SET_SWITCH_RELAY, take 1 (data f))]
         \<and> sent (snd (rscpHandle cb t f0 e)) =
             sent e @ [ack_frame cb RSCP_CMD_SET_SWITCH_RELAY
                         (of_int (rscpSetSwitchRelayCallback cb (take 1 (data f))))]
         \<and> rscpHandle cb t f0 e =
             rscpSendFail cb RSCP_CMD_SET_SWITCH_RELAY
               (of_int (rscpSetSwitchRelayCallback cb (take 1 (data f))))
               (e1\<lparr>dev_calls := dev_calls e1 @
                     [(RSCP_CMD_SET_SWITCH_RELAY, take 1 (data f))]\<rparr>))
    \<and> (command f = RSCP_CMD_SET_BUZZER_ACTION \<longrightarrow>
         dev_calls (snd (rscpHandle cb t f0 e)) =
           dev_calls e @ [(RSCP_CMD_SET_BUZZER_ACTION, take 9 (data f))]
         \<and> sent (snd (rscpHandle cb t f0 e)) =
             sent e @ [ack_frame cb RSCP_CMD_SET_BUZZER_ACTION
                         (of_int (rscpSetBuzzerActionCallback cb (take 9 (data f))))]
         \<and> rscpHandle cb t f0 e =
             rscpSendFail cb RSCP_CMD_SET_BUZZER_ACTION
               (of_int (rscpSetBuzzerActionCallback cb (take 9 (data f))))
               (e1\<lparr>dev_calls := dev_calls e1 @
                     [(RSCP_CMD_SET_BUZZER_ACTION, take 9 (data f))]\<rparr>))"
      by (rule impI, elim conjE, rule part1)
  next
    show "rx e = map Some [RSCP_PREAMBLE_BYTE, 2, RSCP_CMD_SET_BUZZER_ACTION,
                        ucast (drop_bit 8 c), ucast c] @ rest
      \<and> c = rscpGetCrcCallback cb [2, RSCP_CMD_SET_BUZZER_ACTION] \<longrightarrow>
      dev_calls (snd (rscpHandle cb t f0 e)) =
        dev_calls e @ [(RSCP_CMD_SET_BUZZER_ACTION, take 9 (data f0))]
      \<and> sent (snd (rscpHandle cb t f0 e)) =
          sent e @ [ack_frame cb RSCP_CMD_SET_BUZZER_ACTION
                      (of_int (rscpSetBuzzerActionCallback cb (take 9 (data f0))))]"
      by (rule impI, elim conjE, rule buzzer)
  qed
qed

theorem rscpHandle_set_dispatch_unchecked_witness:
  "dev_calls (snd (rscpHandle cb1 0 frame0 (env0 (map Some [0xAA, 2, 9, 0x12, 0x3F])))) =
     [(9, replicate 9 0xEE)]
   \<and> sent (snd (rscpHandle cb1 0 frame0 (env0 (map Some [0xAA, 2, 9, 0x12, 0x3F])))) =
     [[0xAA, 3, 9, 0xF9, 0x13, 0x39]]
   \<and> rscpHandle cb1 0 frame0 (env0 (map Some [0xAA, 2, 4, 0x12, 0x3A])) =
     (RSCP_ERR_OK,
      (env0 [])\<lparr>polls := 5, sent := [[0xAA, 3, 4, 0xFF, 0x13, 0x3A]],
                 dev_calls := [(4, replicate 3 0xEE)]\<rparr>)
   \<and> rscpHandle cb1 0 frame0 (env0 (map Some [0xAA, 3, 7, 0x01, 0x12, 0x3F])) =
     (RSCP_ERR_OK,
      (env0 [])\<lparr>polls := 6, sent := [[0xAA, 3, 7, 0x00, 0x12, 0x3E]],
                 dev_calls := [(7, [0x01])]\<rparr>)"
proof -
  let ?A = "env0 (map Some [0xAA, 2, 9, 0x12, 0x3F])"
  have rxA: "rx ?A = map Some [RSCP_PREAMBLE_BYTE, 2, RSCP_CMD_SET_BUZZER_ACTION,
                        ucast (drop_bit 8 (0x123F :: u16)), ucast (0x123F :: u16)] @ []"
    by code_simp
  have cA: "(0x123F :: u16) = rscpGetCrcCallback cb1 [2, RSCP_CMD_SET_BUZZER_ACTION]"
    by code_simp
  note A = rscpHandle_set_dispatch_unchecked [where e = ?A and c = "0x123F" and cb = cb1
        and rest = "[]" and t = 0 and ?f0.0 = frame0, THEN conjunct2, THEN mp,
        OF conjI [OF rxA cA]]
  have "dev_calls (snd (rscpHandle cb1 0 frame0 ?A)) =
      dev_calls ?A @ [(RSCP_CMD_SET_BUZZER_ACTION, take 9 (data frame0))]"
    by (rule A [THEN conjunct1])
  also have "\<dots> = [(9, replicate 9 0xEE)]" by code_simp
  finally have A1: "dev_calls (snd (rscpHandle cb1 0 frame0 ?A)) = [(9, replicate 9 0xEE)]" .
  have "sent (snd (rscpHandle cb1 0 frame0 ?A)) =
      sent ?A @ [ack_frame cb1 RSCP_CMD_SET_BUZZER_ACTION
                   (of_int (rscpSetBuzzerActionCallback cb1 (take 9 (data frame0))))]"
    by (rule A [THEN conjunct2])
  also have "\<dots> = [[0xAA, 3, 9, 0xF9, 0x13, 0x39]]" by code_simp
  finally have A2: "sent (snd (rscpHandle cb1 0 frame0 ?A)) = [[0xAA, 3, 9, 0xF9, 0x13, 0x39]]" .
  let ?B = "env0 (map Some [0xAA, 2, 4, 0x12, 0x3A])"
  let ?fB = "frame0\<lparr>length_f := 2, command := 4, crc := 0x123A\<rparr>"
  let ?B1 = "(env0 [])\<lparr>polls := 5\<rparr>"
  have gB: "rscpGetMsg 0 frame0 ?B = (RSCP_ERR_OK, ?fB, ?B1)" by code_simp
  have cB: "frame_crc cb1 ?fB = crc ?fB" by code_simp
  have mB: "command ?fB = RSCP_CMD_SET_SHUTTER_ACTION" by code_simp
  note B = rscpHandle_set_dispatch_unchecked [where e = ?B and cb = cb1 and t = 0
        and ?f0.0 = frame0 and f = ?fB and ?e1.0 = ?B1, THEN conjunct1, THEN mp,
        OF conjI [OF gB cB], THEN conjunct1, THEN mp, OF mB]
  have "rscpHandle cb1 0 frame0 ?B =
      rscpSendFail cb1 RSCP_CMD_SET_SHUTTER_ACTION
        (of_int (rscpSetShutterActionCallback cb1 (take 3 (data ?fB))))
        (?B1\<lparr>dev_calls := dev_calls ?B1 @ [(RSCP_CMD_SET_SHUTTER_ACTION, take 3 (data ?fB))]\<rparr>)"
    by (rule B [THEN conjunct2, THEN conjunct2])
  also have "\<dots> = (RSCP_ERR_OK,
      (env0 [])\<lparr>polls := 5, sent := [[0xAA, 3, 4, 0xFF, 0x13, 0x3A]],
                 dev_calls := [(4, replicate 3 0xEE)]\<rparr>)"
    by code_simp
  finally have B1: "rscpHandle cb1 0 frame0 ?B = (RSCP_ERR_OK,
      (env0 [])\<lparr>polls := 5, sent := [[0xAA, 3, 4, 0xFF, 0x13, 0x3A]],
                 dev_calls := [(4, replicate 3 0xEE)]\<rparr>)" .
  let ?C = "env0 (map Some [0xAA, 3, 7, 0x01, 0x12, 0x3F])"
  let ?fC = "frame0\<lparr>length_f := 3, command := 7, data := 0x01 # replicate 25 0xEE,
                    crc := 0x123F\<rparr>"
  let ?C1 = "(env0 [])\<lparr>polls := 6\<rparr>"
  have gC: "rscpGetMsg 0 frame0 ?C = (RSCP_ERR_OK, ?fC, ?C1)" by code_simp
  have cC: "frame_crc cb1 ?fC = crc ?fC" by code_simp
  have mC: "command ?fC = RSCP_CMD_SET_SWITCH_RELAY" by code_simp
  note C = rscpHandle_set_dispatch_unchecked [where e = ?C and cb = cb1 and t = 0
        and ?f0.0 = frame0 and f = ?fC and ?e1.0 = ?C1, THEN conjunct1, THEN mp,
        OF conjI [OF gC cC], THEN conjunct2, THEN conjunct2, THEN conjunct1, THEN mp, OF mC]
  have "rscpHandle cb1 0 frame0 ?C =
      rscpSendFail cb1 RSCP_CMD_SET_SWITCH_RELAY
        (of_int (rscpSetSwitchRelayCallback cb1 (take 1 (data ?fC))))
        (?C1\<lparr>dev_calls := dev_calls ?C1 @ [(RSCP_CMD_SET_SWITCH_RELAY, take 1 (data ?fC))]\<rparr>)"
    by (rule C [THEN conjunct2, THEN conjunct2])
  also have "\<dots> = (RSCP_ERR_OK,
      (env0 [])\<lparr>polls := 6, sent := [[0xAA, 3, 7, 0x00, 0x12, 0x3E]],
                 dev_calls := [(7, [0x01])]\<rparr>)"
    by code_simp
  finally have C1: "rscpHandle cb1 0 frame0 ?C = (RSCP_ERR_OK,
      (env0 [])\<lparr>polls := 6, sent := [[0xAA, 3, 7, 0x00, 0x12, 0x3E]],
                 dev_calls := [(7, [0x01])]\<rparr>)" .
  show ?thesis
    by (rule conjI [OF A1 conjI [OF A2 conjI [OF B1 C1]]])
qed

subsection \<open>The invariant of the receive loop\<close>

lemma unat_threshold:
  "2 < unat (l :: u8) \<Longrightarrow> unat (ucast l - 2 :: u32) = unat l - 2"
proof -
  assume a: "2 < unat l"
  have "unat l < 2 ^ 8"
    using unsigned_less [of l, where ?'a = nat] by simp
  then have "unat l < 2 ^ 32" by simp
  then have u: "unat (ucast l :: u32) = unat l"
    by (simp add: unsigned_ucast_eq take_bit_nat_eq_self)
  have "(2 :: u32) \<le> ucast l"
    using a u by (simp add: word_le_nat_alt)
  then have "unat (ucast l - 2 :: u32) = unat (ucast l :: u32) - unat (2 :: u32)"
    by (rule unat_sub)
  with u show ?thesis by simp
qed

lemma unat_index_suc:
  "i < (26 :: u32) \<Longrightarrow> unat (i + 1) = Suc (unat i)"
proof -
  assume "i < 26"
  then have "unat i < 26" by (simp add: word_less_nat_alt)
  then have "unat i + unat (1 :: u32) < 2 ^ LENGTH(32)" by simp
  then have "unat (i + 1) = unat i + unat (1 :: u32)"
    by (simp only: unat_add_lem [THEN iffD1])
  then show ?thesis by simp
qed

lemma word_gt_2: "(2 < (l :: u8)) = (2 < unat l)"
  by (simp add: word_less_nat_alt)

lemma switch_data:
  assumes "rscpRxStatus v = 2" and "bufferIndex v < 26"
    and "unat (bufferIndex v) + 2 < unat (length_f (frame v))"
  shows "rscpGetMsg_switch b v =
    Break (v\<lparr>frame := (frame v)\<lparr>data := (data (frame v))[unat (bufferIndex v) := b]\<rparr>,
             bufferIndex := bufferIndex v + 1,
             data_writes := data_writes v @ [unat (bufferIndex v)],
             rscpRxStatus := (if unat (length_f (frame v)) \<le> unat (bufferIndex v) + 3
                              then 3 else 2)\<rparr>)"
proof -
  have th: "unat (ucast (length_f (frame v)) - 2 :: u32) = unat (length_f (frame v)) - 2"
    using assms(3) by (intro unat_threshold) simp
  have "(ucast (length_f (frame v)) - 2 \<le> bufferIndex v + 1)
        = (unat (length_f (frame v)) \<le> unat (bufferIndex v) + 3)"
    using assms(3) by (simp add: word_le_nat_alt th unat_index_suc [OF assms(2)]) arith
  then show ?thesis
    using assms(1) by (simp add: rscpGetMsg_switch_def Let_def)
qed

lemma rx_inv_Break:
  assumes "rx_inv v" and "bufferIndex v < 26" and "rscpGetMsg_switch b v = Break v'"
  shows "rx_inv v'"
proof -
  from assms(1) consider "rscpRxStatus v = 0" | "rscpRxStatus v = 1" | "rscpRxStatus v = 2"
    | "rscpRxStatus v = 3" | "rscpRxStatus v = 4"
    by (auto simp: rx_inv_def)
  then show ?thesis
  proof cases
    case 1
    with assms show ?thesis
      by (auto simp: rx_inv_def rscpGetMsg_switch_def split: if_splits)
  next
    case 2
    with assms show ?thesis
      by (auto simp: rx_inv_def rscpGetMsg_switch_def Let_def word_gt_2 split: if_splits)
  next
    case 3
    with assms(1) have lt: "unat (bufferIndex v) + 2 < unat (length_f (frame v))"
      by (simp add: rx_inv_def)
    from assms(2) have i: "unat (bufferIndex v) < 26" by (simp add: word_less_nat_alt)
    from assms(3) switch_data [OF 3 assms(2) lt, of b] have v': "v' =
      v\<lparr>frame := (frame v)\<lparr>data := (data (frame v))[unat (bufferIndex v) := b]\<rparr>,
             bufferIndex := bufferIndex v + 1,
             data_writes := data_writes v @ [unat (bufferIndex v)],
             rscpRxStatus := (if unat (length_f (frame v)) \<le> unat (bufferIndex v) + 3
                              then 3 else 2)\<rparr>"
      by simp
    show ?thesis
      using assms(1) lt i unfolding v'
      by (auto simp: rx_inv_def unat_index_suc [OF assms(2)])
  next
    case 4
    with assms show ?thesis
      by (auto simp: rx_inv_def rscpGetMsg_switch_def split: if_splits)
  next
    case 5
    with assms show ?thesis
      by (auto simp: rx_inv_def rscpGetMsg_switch_def split: if_splits)
  qed
qed

lemma rx_inv_Return:
  assumes "rx_inv v" and "bufferIndex v < 26" and "rscpGetMsg_switch b v = Return err v'"
  shows "err = RSCP_ERR_OK \<and> rx_inv v' \<and> rscpRxStatus v' = 4 \<and> bufferIndex v' < 26"
proof -
  from assms(1) consider "rscpRxStatus v = 0" | "rscpRxStatus v = 1" | "rscpRxStatus v = 2"
    | "rscpRxStatus v = 3" | "rscpRxStatus v = 4"
    by (auto simp: rx_inv_def)
  then show ?thesis
  proof cases
    case 3
    with assms(1) have lt: "unat (bufferIndex v) + 2 < unat (length_f (frame v))"
      by (simp add: rx_inv_def)
    from assms(3) switch_data [OF 3 assms(2) lt, of b] show ?thesis by simp
  qed (use assms in \<open>auto simp: rx_inv_def rscpGetMsg_switch_def Let_def split: if_splits\<close>)
qed

lemma rscpGetMsg_loop_invariant:
  assumes "I v"
    and brk: "\<And>b v v'. I v \<Longrightarrow> bufferIndex v < 26 \<Longrightarrow> sw b v = Break v' \<Longrightarrow> I v'"
    and ret: "\<And>b v err v'. I v \<Longrightarrow> bufferIndex v < 26 \<Longrightarrow> sw b v = Return err v' \<Longrightarrow> Q err v'"
    and tmo: "\<And>v. I v \<Longrightarrow> bufferIndex v < 26 \<Longrightarrow> Q RSCP_ERR_TIMEOUT v"
    and ovf: "\<And>v. I v \<Longrightarrow> \<not> bufferIndex v < 26 \<Longrightarrow> Q RSCP_ERR_OVERFLOW v"
  shows "Q (fst (rscpGetMsg_loop sw t v e)) (fst (snd (rscpGetMsg_loop sw t v e)))"
proof -
  have "s = sw \<Longrightarrow> I v \<Longrightarrow>
        Q (fst (rscpGetMsg_loop s t v e)) (fst (snd (rscpGetMsg_loop s t v e)))" for s
  proof (induction s t v e rule: rscpGetMsg_loop.induct)
    case (1 s t v e)
    note s = \<open>s = sw\<close> and inv = \<open>I v\<close>
    show ?case
    proof (cases "bufferIndex v < 26")
      case False
      then show ?thesis
        using ovf [OF inv]
        by (subst (1 2) rscpGetMsg_loop.simps) (simp add: sizeof_data_def)
    next
      case True
      then have g: "bufferIndex v < of_nat sizeof_data" by (simp add: sizeof_data_def)
      obtain x e1 where blk: "rscpGetRxByteBlocking e t = (x, e1)" by force
      show ?thesis
      proof (cases x)
        case None
        then show ?thesis
          using tmo [OF inv True] blk g
          by (subst (1 2) rscpGetMsg_loop.simps) simp
      next
        case (Some b)
        show ?thesis
        proof (cases "s b v")
          case (Return err v1)
          then have "sw b v = Return err v1" by (simp add: s)
          from ret [OF inv True this] show ?thesis
            using blk g Some Return
            by (subst (1 2) rscpGetMsg_loop.simps) simp
        next
          case (Break v1)
          then have "sw b v = Break v1" by (simp add: s)
          from brk [OF inv True this] have "I v1" .
          from "1.IH" [OF g blk [symmetric] Some Break s this]
          show ?thesis
            using blk g Some Break
            by (subst (1 2) rscpGetMsg_loop.simps) simp
        qed
      qed
    qed
  qed
  with assms(1) show ?thesis by simp
qed

lemma rx_inv_init: "rx_inv (rx_vars_init f)"
  by (simp add: rx_inv_def rx_vars_init_def)

lemma rscpGetMsg_run_inv:
  "rx_inv (fst (snd (rscpGetMsg_run t f e)))
   \<and> (fst (rscpGetMsg_run t f e) = RSCP_ERR_OK \<longrightarrow>
        rscpRxStatus (fst (snd (rscpGetMsg_run t f e))) = 4)
   \<and> ((fst (rscpGetMsg_run t f e) = RSCP_ERR_OVERFLOW)
        = (\<not> bufferIndex (fst (snd (rscpGetMsg_run t f e))) < 26))"
  unfolding rscpGetMsg_run_def
  by (rule rscpGetMsg_loop_invariant [where I = rx_inv and sw = rscpGetMsg_switch])
     (auto simp: rx_inv_init RSCP_ERR_defs dest: rx_inv_Break rx_inv_Return)

subsection \<open>The length field of a received frame\<close>

text \<open>
  C9 says a frame returned with \<open>RSCP_ERR_OK\<close> has a length field of at least 2. Nothing
  in \<^verbatim>\<open>rscpGetMsg\<close> rejects a smaller one: state 1 treats every length that is not
  greater than 2 as a frame without data. The four bytes 0x00, 9, 0x12, 0x3F are
  returned as a frame of length 0.
\<close>

theorem min_length_counterexample:
  "fst (rscpGetMsg 0 frame0 (env0 (map Some [0x00, 9, 0x12, 0x3F]))) = RSCP_ERR_OK \<and>
   length_f (fst (snd (rscpGetMsg 0 frame0 (env0 (map Some [0x00, 9, 0x12, 0x3F]))))) = 0 \<and>
   \<not> 2 \<le> length_f (fst (snd (rscpGetMsg 0 frame0 (env0 (map Some [0x00, 9, 0x12, 0x3F])))))"
  by code_simp

text \<open>
  C9 (amended): every frame \<^verbatim>\<open>rscpGetMsg\<close> returns with \<open>RSCP_ERR_OK\<close> has a length field
  of at most 28; the field may be 0 or 1. The number of data bytes stored is the length
  minus 2 when the length is greater than 2, and none otherwise, so it is never negative.
\<close>

theorem rscpGetMsg_ok_length:
  assumes "rscpGetMsg_run t f e = (RSCP_ERR_OK, v, e')"
  shows "rscpGetMsg t f e = (RSCP_ERR_OK, frame v, e')
       \<and> unat (length_f (frame v)) \<le> 28
       \<and> data_writes v =
           [0..<(if 2 < unat (length_f (frame v)) then unat (length_f (frame v)) - 2 else 0)]"
proof -
  from rscpGetMsg_run_inv [of t f e] assms
  have inv: "rx_inv v" and st: "rscpRxStatus v = 4" and i: "bufferIndex v < 26"
    by (simp_all add: RSCP_ERR_defs)
  from i have "unat (bufferIndex v) < 26" by (simp add: word_less_nat_alt)
  with inv st show ?thesis
    using assms by (auto simp: rx_inv_def rscpGetMsg_def split: if_splits)
qed

theorem rscpGetMsg_ok_length_witness:
  "rscpGetMsg 0 frame0 (env0 (map Some [0xAA, 4, 9, 0x61, 0x62, 0x12, 0x3F])) =
     (RSCP_ERR_OK,
      frame0\<lparr>length_f := 4, command := 9, data := [0x61, 0x62] @ replicate 24 0xEE,
             crc := 0x123F\<rparr>,
      (env0 [])\<lparr>polls := 7\<rparr>)
   \<and> unat (4 :: u8) \<le> 28
   \<and> rscpGetMsg 0 frame0 (env0 (map Some [0x01, 9, 0x12, 0x3F])) =
     (RSCP_ERR_OK, frame0\<lparr>length_f := 1, command := 9, crc := 0x123F\<rparr>,
      (env0 [])\<lparr>polls := 4\<rparr>)"
proof -
  let ?vA = "\<lparr>bufferIndex = 2, rscpRxStatus = 4,
      frame = frame0\<lparr>length_f := 4, command := 9, data := [0x61, 0x62] @ replicate 24 0xEE,
             crc := 0x123F\<rparr>, data_writes = [0, 1]\<rparr>"
  have A: "rscpGetMsg_run 0 frame0 (env0 (map Some [0xAA, 4, 9, 0x61, 0x62, 0x12, 0x3F])) =
      (RSCP_ERR_OK, ?vA, (env0 [])\<lparr>polls := 7\<rparr>)"
    by code_simp
  let ?vB = "\<lparr>bufferIndex = 0, rscpRxStatus = 4,
      frame = frame0\<lparr>length_f := 1, command := 9, crc := 0x123F\<rparr>, data_writes = []\<rparr>"
  have B: "rscpGetMsg_run 0 frame0 (env0 (map Some [0x01, 9, 0x12, 0x3F])) =
      (RSCP_ERR_OK, ?vB, (env0 [])\<lparr>polls := 4\<rparr>)"
    by code_simp
  from rscpGetMsg_ok_length [OF A] rscpGetMsg_ok_length [OF B]
  show ?thesis by simp
qed

subsection \<open>Data bytes\<close>

lemma store_at_eq:
  "i + length bs \<le> length d \<Longrightarrow> store_at d i bs = take i d @ bs @ drop (i + length bs) d"
proof (induction bs arbitrary: d i)
  case Nil
  then show ?case by simp
next
  case (Cons b bs)
  then have i: "i < length d" by simp
  have "store_at (d[i := b]) (Suc i) bs =
          take (Suc i) (d[i := b]) @ bs @ drop (Suc i + length bs) (d[i := b])"
    using Cons.prems by (intro Cons.IH) simp
  also have "take (Suc i) (d[i := b]) = take i d @ [b]"
    using i by (simp add: take_Suc_conv_app_nth)
  also have "drop (Suc i + length bs) (d[i := b]) = drop (Suc i + length bs) d"
    by simp
  finally show ?case by simp
qed

lemma of_nat_index:
  "i < 26 \<Longrightarrow> (of_nat i :: u32) < 26 \<and> unat (of_nat i :: u32) = i"
proof -
  assume "i < 26"
  then have "unat (of_nat i :: u32) = i" by (simp add: unat_of_nat)
  with \<open>i < 26\<close> show ?thesis by (simp add: word_less_nat_alt)
qed

lemma switch_data_nat:
  assumes "i < 26" and "i + 2 < unat (length_f f)"
  shows "rscpGetMsg_switch b
       \<lparr>bufferIndex = of_nat i, rscpRxStatus = 2, frame = f, data_writes = w\<rparr> =
     Break \<lparr>bufferIndex = of_nat (Suc i),
            rscpRxStatus = (if unat (length_f f) \<le> i + 3 then 3 else 2),
            frame = f\<lparr>data := (data f)[i := b]\<rparr>, data_writes = w @ [i]\<rparr>"
proof -
  let ?v = "\<lparr>bufferIndex = of_nat i, rscpRxStatus = 2, frame = f, data_writes = w\<rparr>"
  from of_nat_index [OF assms(1)] have lt: "(of_nat i :: u32) < 26"
    and u: "unat (of_nat i :: u32) = i" by simp_all
  have "rscpGetMsg_switch b ?v =
    Break (?v\<lparr>frame := (frame ?v)\<lparr>data := (data (frame ?v))[unat (bufferIndex ?v) := b]\<rparr>,
             bufferIndex := bufferIndex ?v + 1,
             data_writes := data_writes ?v @ [unat (bufferIndex ?v)],
             rscpRxStatus := (if unat (length_f (frame ?v)) \<le> unat (bufferIndex ?v) + 3
                              then 3 else 2)\<rparr>)"
    using lt u assms(2) by (intro switch_data) simp_all
  then show ?thesis by (simp add: u)
qed

lemma rscpGetMsg_loop_data:
  assumes "ds \<noteq> []" and "i + length ds \<le> 26" and "i + length ds + 2 \<le> unat (length_f f)"
  shows "rscpGetMsg_loop rscpGetMsg_switch t
       \<lparr>bufferIndex = of_nat i, rscpRxStatus = 2, frame = f, data_writes = w\<rparr>
       (feed e (map Some ds @ rest) p) =
     rscpGetMsg_loop rscpGetMsg_switch t
       \<lparr>bufferIndex = of_nat (i + length ds),
        rscpRxStatus = (if unat (length_f f) \<le> i + length ds + 2 then 3 else 2),
        frame = f\<lparr>data := store_at (data f) i ds\<rparr>,
        data_writes = w @ [i..<i + length ds]\<rparr>
       (feed e rest (p + length ds))"
  using assms
proof (induction ds arbitrary: i f w p rule: list_nonempty_induct)
  case (single b)
  then have i: "i < 26" and l: "i + 2 < unat (length_f f)" by simp_all
  from of_nat_index [OF i] have lt: "(of_nat i :: u32) < 26" by simp
  show ?case
    using lt by (simp add: rscpGetMsg_loop_step switch_data_nat [OF i l])
next
  case (cons b ds)
  then have i: "i < 26" and l: "i + 2 < unat (length_f f)"
    and more: "\<not> unat (length_f f) \<le> i + 3" by (cases ds; simp)+
  from of_nat_index [OF i] have lt: "(of_nat i :: u32) < 26" by simp
  have "rscpGetMsg_loop rscpGetMsg_switch t
       \<lparr>bufferIndex = of_nat i, rscpRxStatus = 2, frame = f, data_writes = w\<rparr>
       (feed e (map Some (b # ds) @ rest) p) =
     rscpGetMsg_loop rscpGetMsg_switch t
       \<lparr>bufferIndex = of_nat (Suc i), rscpRxStatus = 2,
        frame = f\<lparr>data := (data f)[i := b]\<rparr>, data_writes = w @ [i]\<rparr>
       (feed e (map Some ds @ rest) (Suc p))"
    using lt more by (simp add: rscpGetMsg_loop_step switch_data_nat [OF i l])
  also have "\<dots> = rscpGetMsg_loop rscpGetMsg_switch t
       \<lparr>bufferIndex = of_nat (Suc i + length ds),
        rscpRxStatus = (if unat (length_f (f\<lparr>data := (data f)[i := b]\<rparr>)) \<le> Suc i + length ds + 2
                        then 3 else 2),
        frame = (f\<lparr>data := (data f)[i := b]\<rparr>)
                  \<lparr>data := store_at (data (f\<lparr>data := (data f)[i := b]\<rparr>)) (Suc i) ds\<rparr>,
        data_writes = (w @ [i]) @ [Suc i..<Suc i + length ds]\<rparr>
       (feed e rest (Suc p + length ds))"
    using cons.prems by (intro cons.IH) simp_all
  finally show ?case
    by (simp add: upt_conv_Cons del: upt_Suc)
qed

lemma rscpGetMsg_loop_overflow:
  "\<not> bufferIndex v < 26 \<Longrightarrow> rscpGetMsg_loop sw t v e = (RSCP_ERR_OVERFLOW, v, e)"
  by (subst rscpGetMsg_loop.simps) (simp add: sizeof_data_def)

lemma rscpGetMsg_run_overflow:
  assumes rx: "rx e = replicate n (Some RSCP_PREAMBLE_BYTE) @ Some l # Some c # map Some ds @ rest"
    and l: "l \<noteq> RSCP_PREAMBLE_BYTE" "28 < unat l" and ds: "length ds = 26"
    and f: "length (data f) = 26"
  shows "rscpGetMsg_run t f e =
    (RSCP_ERR_OVERFLOW,
     \<lparr>bufferIndex = 26, rscpRxStatus = 2, frame = f\<lparr>length_f := l, command := c, data := ds\<rparr>,
      data_writes = [0..<26]\<rparr>,
     e\<lparr>rx := rest, polls := polls e + n + 28\<rparr>)"
proof -
  from l(2) have l2: "2 < l" by (simp add: word_less_nat_alt)
  from ds have ne: "ds \<noteq> []" by auto
  have st: "store_at (data f) 0 ds = ds"
    using ds f by (simp add: store_at_eq)
  have "rscpGetMsg_run t f e = rscpGetMsg_run t f
     (feed e (replicate n (Some RSCP_PREAMBLE_BYTE) @ Some l # Some c # map Some ds @ rest)
        (polls e))"
    using feed_self [of e] rx by simp
  also have "\<dots> = rscpGetMsg_loop rscpGetMsg_switch t
       \<lparr>bufferIndex = of_nat 0, rscpRxStatus = 2, frame = f\<lparr>length_f := l, command := c\<rparr>,
        data_writes = []\<rparr>
       (feed e (map Some ds @ rest) (Suc (Suc (polls e + n))))"
    using l(1) l2
    by (simp add: rscpGetMsg_run_def rx_vars_init_def rscpGetMsg_loop_preambles
        rscpGetMsg_loop_step switch_length switch_command)
  also have "\<dots> = rscpGetMsg_loop rscpGetMsg_switch t
       \<lparr>bufferIndex = of_nat (0 + length ds),
        rscpRxStatus = (if unat (length_f (f\<lparr>length_f := l, command := c\<rparr>)) \<le> 0 + length ds + 2
                        then 3 else 2),
        frame = (f\<lparr>length_f := l, command := c\<rparr>)
                  \<lparr>data := store_at (data (f\<lparr>length_f := l, command := c\<rparr>)) 0 ds\<rparr>,
        data_writes = [] @ [0..<0 + length ds]\<rparr>
       (feed e rest (Suc (Suc (polls e + n)) + length ds))"
    using ne ds l(2) by (intro rscpGetMsg_loop_data) simp_all
  also have "\<dots> = (RSCP_ERR_OVERFLOW,
     \<lparr>bufferIndex = 26, rscpRxStatus = 2, frame = f\<lparr>length_f := l, command := c, data := ds\<rparr>,
      data_writes = [0..<26]\<rparr>,
     feed e rest (Suc (Suc (polls e + n)) + 26))"
    using ds l(2) st by (simp add: rscpGetMsg_loop_overflow)
  finally show ?thesis by (simp add: feed_def)
qed

subsection \<open>The overflow boundary\<close>

text \<open>
  C3: on a stream whose length field announces more than 26 data bytes, and which
  supplies the bytes, \<^verbatim>\<open>rscpGetMsg\<close> stores 26 data bytes at the indices 0 to 25 and
  fails with \<open>RSCP_ERR_OVERFLOW\<close> before it reads the 27th, which stays in the stream;
  and on every stream, with every tick budget and every initial frame, every store
  into \<^verbatim>\<open>frame->data\<close> is at an index below 26, and \<open>RSCP_ERR_OVERFLOW\<close> is returned
  exactly when 26 data bytes have been stored, so that the next store would be the 27th.
\<close>

theorem overflow_boundary:
  "(rx e = replicate n (Some RSCP_PREAMBLE_BYTE) @ Some l # Some c # map Some ds @ rest
      \<and> l \<noteq> RSCP_PREAMBLE_BYTE \<and> 26 < unat l - 2 \<and> length ds = 26 \<and> length (data f) = 26
    \<longrightarrow> rscpGetMsg_run t f e =
          (RSCP_ERR_OVERFLOW,
           \<lparr>bufferIndex = 26, rscpRxStatus = 2,
            frame = f\<lparr>length_f := l, command := c, data := ds\<rparr>, data_writes = [0..<26]\<rparr>,
           e\<lparr>rx := rest, polls := polls e + n + 28\<rparr>))
   \<and> (\<forall>i \<in> set (data_writes (fst (snd (rscpGetMsg_run t' f' e')))). i < 26)
   \<and> ((fst (rscpGetMsg_run t' f' e') = RSCP_ERR_OVERFLOW)
        = (data_writes (fst (snd (rscpGetMsg_run t' f' e'))) = [0..<26]))"
proof (intro conjI impI ballI; (elim conjE)?)
  fix i assume "i \<in> set (data_writes (fst (snd (rscpGetMsg_run t' f' e'))))"
  moreover from rscpGetMsg_run_inv [of t' f' e']
  have "rx_inv (fst (snd (rscpGetMsg_run t' f' e')))" by simp
  ultimately show "i < 26" by (auto simp: rx_inv_def)
next
  let ?v = "fst (snd (rscpGetMsg_run t' f' e'))"
  from rscpGetMsg_run_inv [of t' f' e']
  have inv: "rx_inv ?v"
    and ovf: "(fst (rscpGetMsg_run t' f' e') = RSCP_ERR_OVERFLOW) = (\<not> bufferIndex ?v < 26)"
    by simp_all
  from inv have le: "unat (bufferIndex ?v) \<le> 26"
    and w: "data_writes ?v = [0..<unat (bufferIndex ?v)]"
    by (simp_all add: rx_inv_def)
  have "(\<not> bufferIndex ?v < 26) = (unat (bufferIndex ?v) = 26)"
    using le by (auto simp: word_less_nat_alt)
  also have "\<dots> = (data_writes ?v = [0..<26])"
    unfolding w by (metis diff_zero length_upt)
  finally show "(fst (rscpGetMsg_run t' f' e') = RSCP_ERR_OVERFLOW) = (data_writes ?v = [0..<26])"
    using ovf by simp
next
  assume "rx e = replicate n (Some RSCP_PREAMBLE_BYTE) @ Some l # Some c # map Some ds @ rest"
    "l \<noteq> RSCP_PREAMBLE_BYTE" "26 < unat l - 2" "length ds = 26" "length (data f) = 26"
  then show "rscpGetMsg_run t f e =
          (RSCP_ERR_OVERFLOW,
           \<lparr>bufferIndex = 26, rscpRxStatus = 2,
            frame = f\<lparr>length_f := l, command := c, data := ds\<rparr>, data_writes = [0..<26]\<rparr>,
           e\<lparr>rx := rest, polls := polls e + n + 28\<rparr>)"
    by (intro rscpGetMsg_run_overflow) simp_all
qed

theorem overflow_boundary_witness:
  "rscpGetMsg_run 7 frame0 (env0 (map Some ([0xAA, 40, 9] @ replicate 26 0x61 @ [0x62, 0x63]))) =
     (RSCP_ERR_OVERFLOW,
      \<lparr>bufferIndex = 26, rscpRxStatus = 2,
       frame = frame0\<lparr>length_f := 40, command := 9, data := replicate 26 0x61\<rparr>,
       data_writes = [0..<26]\<rparr>,
      (env0 (map Some [0x62, 0x63]))\<lparr>polls := 29\<rparr>)
   \<and> 25 \<in> set (data_writes (fst (snd (rscpGetMsg_run 7 frame0
          (env0 (map Some ([0xAA, 40, 9] @ replicate 26 0x61 @ [0x62, 0x63])))))))
   \<and> (25 :: nat) < 26"
proof -
  let ?e = "env0 (map Some ([0xAA, 40, 9] @ replicate 26 0x61 @ [0x62, 0x63]))"
  note inst = overflow_boundary [where e = ?e and n = 1 and l = 40 and c = 9
      and ds = "replicate 26 0x61" and rest = "map Some [0x62, 0x63]" and f = frame0 and t = 7
      and t' = 7 and f' = frame0 and e' = ?e]
  have "rx ?e = replicate 1 (Some RSCP_PREAMBLE_BYTE) @ Some 40 # Some 9 #
                  map Some (replicate 26 0x61) @ map Some [0x62, 0x63]"
    by code_simp
  moreover have "(40 :: u8) \<noteq> RSCP_PREAMBLE_BYTE" by code_simp
  moreover have "26 < unat (40 :: u8) - 2" by simp
  moreover have "length (replicate 26 (0x61 :: u8)) = 26" by simp
  moreover have "length (data frame0) = 26" by (simp add: frame0_def)
  ultimately have run: "rscpGetMsg_run 7 frame0 ?e =
     (RSCP_ERR_OVERFLOW,
      \<lparr>bufferIndex = 26, rscpRxStatus = 2,
       frame = frame0\<lparr>length_f := 40, command := 9, data := replicate 26 0x61\<rparr>,
       data_writes = [0..<26]\<rparr>,
      ?e\<lparr>rx := map Some [0x62, 0x63], polls := polls ?e + 1 + 28\<rparr>)"
    using inst by blast
  have env: "?e\<lparr>rx := map Some [0x62, 0x63], polls := polls ?e + 1 + 28\<rparr> =
        (env0 (map Some [0x62, 0x63]))\<lparr>polls := 29\<rparr>"
    by (simp add: env0_def)
  have mem: "25 \<in> set (data_writes (fst (snd (rscpGetMsg_run 7 frame0 ?e))))"
    unfolding run by simp
  with inst have "(25 :: nat) < 26" by blast
  with run mem show ?thesis unfolding env by blast
qed

subsection \<open>The two drafts of the receive state machine\<close>

lemma switch_agree:
  "(rscpRxStatus v = 1 \<longrightarrow> 2 < length_f (frame v)) \<Longrightarrow>
   rscpGetMsg_switch b v = rscpGetMsg_switch_part_000 b v"
  by (simp add: rscpGetMsg_switch_def rscpGetMsg_switch_part_000_def Let_def)

lemma rscpGetRxByteBlocking_length_byte:
  "rscpGetRxByteBlocking e t = (Some b, e1) \<Longrightarrow>
   length_byte (rx e) = length_byte (Some b # rx e1)"
proof (induction e t rule: rscpGetRxByteBlocking.induct)
  case (1 e t)
  obtain x e' where cb: "rscpGetRxByteCallback e = (x, e')" by force
  show ?case
  proof (cases x)
    case (Some b')
    with cb "1.prems" have "b' = b" "e1 = e'"
      by (subst (asm) rscpGetRxByteBlocking.simps; simp)+
    with cb Some show ?thesis
      by (auto simp: rscpGetRxByteCallback_def split: list.splits)
  next
    case None
    with cb "1.prems" have t: "t \<noteq> 0"
      and rec: "rscpGetRxByteBlocking (rscpRxWaitingCallback e') (t - 1) = (Some b, e1)"
      by (subst (asm) rscpGetRxByteBlocking.simps; simp split: if_splits)+
    from "1.IH" [OF cb [symmetric] None t rec]
    have "length_byte (rx (rscpRxWaitingCallback e')) = length_byte (Some b # rx e1)" .
    moreover have "length_byte (rx e) = length_byte (rx e')"
      using cb None by (auto simp: rscpGetRxByteCallback_def split: list.splits)
    ultimately show ?thesis by (simp add: rscpRxWaitingCallback_def)
  qed
qed

lemma agree_inv_Break:
  "agree_inv v (Some b # r) \<Longrightarrow> rscpGetMsg_switch b v = Break v1 \<Longrightarrow> agree_inv v1 r"
  by (auto simp: agree_inv_def rscpGetMsg_switch_def Let_def split: if_splits)

lemma rscpGetMsg_loops_agree:
  assumes "agree_inv v (rx e)"
  shows "rscpGetMsg_loop rscpGetMsg_switch t v e =
         rscpGetMsg_loop rscpGetMsg_switch_part_000 t v e"
proof -
  have "s = rscpGetMsg_switch \<Longrightarrow> agree_inv v (rx e) \<Longrightarrow>
        rscpGetMsg_loop s t v e = rscpGetMsg_loop rscpGetMsg_switch_part_000 t v e" for s
  proof (induction s t v e rule: rscpGetMsg_loop.induct)
    case (1 s t v e)
    note s = \<open>s = rscpGetMsg_switch\<close> and inv = \<open>agree_inv v (rx e)\<close>
    show ?case
    proof (cases "bufferIndex v < of_nat sizeof_data")
      case False
      then show ?thesis by (subst (1 2) rscpGetMsg_loop.simps) simp
    next
      case True
      obtain x e1 where blk: "rscpGetRxByteBlocking e t = (x, e1)" by force
      show ?thesis
      proof (cases x)
        case None
        with True blk show ?thesis by (subst (1 2) rscpGetMsg_loop.simps) simp
      next
        case (Some b)
        from rscpGetRxByteBlocking_length_byte [OF blk [unfolded Some]] inv
        have inv': "agree_inv v (Some b # rx e1)" by (simp add: agree_inv_def)
        then have sw: "rscpGetMsg_switch_part_000 b v = s b v"
          using switch_agree [of v b] by (simp add: agree_inv_def s)
        show ?thesis
        proof (cases "s b v")
          case (Return err v1)
          with True blk Some sw show ?thesis
            by (subst (1 2) rscpGetMsg_loop.simps) simp
        next
          case (Break v1)
          then have "agree_inv v1 (rx e1)"
            using agree_inv_Break [OF inv'] by (simp add: s)
          from "1.IH" [OF True blk [symmetric] Some Break s this]
          show ?thesis
            using True blk Some sw Break
            by (subst (1 2) rscpGetMsg_loop.simps) simp
        qed
      qed
    qed
  qed
  with assms show ?thesis by simp
qed

text \<open>
  C5 says the two drafts agree on every stream. On a frame whose length field is 2 the
  draft of \<^verbatim>\<open>rscpProtocol.c\<close> returns \<open>RSCP_ERR_OK\<close>; the older draft stores the first CRC
  byte as data, takes the second for the high CRC byte, waits for one more byte and
  returns \<open>RSCP_ERR_TIMEOUT\<close>.
\<close>

theorem drafts_differ_counterexample:
  "fst (rscpGetMsg 0 frame0 (env0 (map Some [0xAA, 2, 9, 0x12, 0x3F]))) = RSCP_ERR_OK \<and>
   fst (rscpGetMsg_part_000 0 frame0 (env0 (map Some [0xAA, 2, 9, 0x12, 0x3F]))) = RSCP_ERR_TIMEOUT \<and>
   rscpGetMsg 0 frame0 (env0 (map Some [0xAA, 2, 9, 0x12, 0x3F]))
     \<noteq> rscpGetMsg_part_000 0 frame0 (env0 (map Some [0xAA, 2, 9, 0x12, 0x3F]))"
  by code_simp

text \<open>
  C5 (amended): the two drafts return the same error code, the same frame and the
  same environment for every tick budget, every initial frame and every input stream
  whose length field (the first byte that is not the preamble) is greater than 2, or
  that has no such byte.
\<close>

theorem drafts_agree_above_2:
  assumes "case length_byte (rx e) of None \<Rightarrow> True | Some l \<Rightarrow> 2 < l"
  shows "rscpGetMsg t f e = rscpGetMsg_part_000 t f e"
proof -
  from assms have "agree_inv (rx_vars_init f) (rx e)"
    by (simp add: agree_inv_def rx_vars_init_def)
  from rscpGetMsg_loops_agree [OF this] show ?thesis
    by (simp add: rscpGetMsg_def rscpGetMsg_part_000_def rscpGetMsg_run_def
        rscpGetMsg_run_part_000_def)
qed

theorem drafts_agree_above_2_witness:
  "length_byte (rx (env0 (map Some [0xAA, 4, 9, 0x61, 0x62, 0x12, 0x3F]))) = Some 4 \<and>
   rscpGetMsg 0 frame0 (env0 (map Some [0xAA, 4, 9, 0x61, 0x62, 0x12, 0x3F])) =
     rscpGetMsg_part_000 0 frame0 (env0 (map Some [0xAA, 4, 9, 0x61, 0x62, 0x12, 0x3F])) \<and>
   fst (rscpGetMsg_part_000 0 frame0 (env0 (map Some [0xAA, 4, 9, 0x61, 0x62, 0x12, 0x3F])))
     = RSCP_ERR_OK"
proof -
  let ?e = "env0 (map Some [0xAA, 4, 9, 0x61, 0x62, 0x12, 0x3F])"
  have l: "length_byte (rx ?e) = Some 4" by code_simp
  then have "case length_byte (rx ?e) of None \<Rightarrow> True | Some l \<Rightarrow> 2 < l" by simp
  from drafts_agree_above_2 [OF this, of 0 frame0]
  have "rscpGetMsg 0 frame0 ?e = rscpGetMsg_part_000 0 frame0 ?e" .
  moreover have "fst (rscpGetMsg_part_000 0 frame0 ?e) = RSCP_ERR_OK" by code_simp
  ultimately show ?thesis using l by blast
qed

subsection \<open>Round trip of a payload of at most 25 bytes\<close>

text \<open>
  What \<^verbatim>\<open>rscpSendMsg\<close> sends for a command and a payload of at most 25 bytes,
  \<^verbatim>\<open>rscpGetMsg\<close> reads back: the command, the length \<open>n + 2\<close>, the payload in the first
  \<open>n\<close> data bytes, and the CRC the receiver recomputes.
\<close>

lemma rscpSendMsg_txBuffer_eq:
  "length payload = unat n \<Longrightarrow>
   rscpSendMsg_txBuffer cb cmd payload n =
     RSCP_PREAMBLE_BYTE # (2 + n) # cmd # payload @
       [ucast (drop_bit 8 (rscpGetCrcCallback cb ((2 + n) # cmd # payload))),
        ucast (rscpGetCrcCallback cb ((2 + n) # cmd # payload))]"
  by (simp add: rscpSendMsg_txBuffer_def Let_def ucast_low_byte ucast_high_byte)

lemma unat_length_byte:
  "unat (n :: u8) \<le> 25 \<Longrightarrow> unat (2 + n) = 2 + unat n"
proof -
  assume "unat n \<le> 25"
  then have "unat (2 :: u8) + unat n < 2 ^ LENGTH(8)" by simp
  then have "unat (2 + n) = unat (2 :: u8) + unat n"
    by (simp only: unat_add_lem [THEN iffD1])
  then show ?thesis by simp
qed

lemma roundtrip_upto_25:
  assumes len: "length payload = unat n" and n: "unat n \<le> 25" and f: "length (data f) = 26"
    and rx: "rx e = map Some (rscpSendMsg_txBuffer cb cmd payload n) @ rest"
  shows "rscpGetMsg t f e =
      (RSCP_ERR_OK,
       f\<lparr>length_f := 2 + n, command := cmd, data := payload @ drop (unat n) (data f),
         crc := rscpGetCrcCallback cb ((2 + n) # cmd # payload)\<rparr>,
       e\<lparr>rx := rest, polls := polls e + 5 + unat n\<rparr>)"
proof -
  let ?c = "rscpGetCrcCallback cb ((2 + n) # cmd # payload)"
  let ?hi = "ucast (drop_bit 8 ?c) :: u8" and ?lo = "ucast ?c :: u8"
  have L: "unat (2 + n) = 2 + unat n" by (rule unat_length_byte [OF n])
  then have ne: "2 + n \<noteq> RSCP_PREAMBLE_BYTE"
    using n by (auto simp: RSCP_PREAMBLE_BYTE_def)
  have rx': "rx e = replicate 1 (Some RSCP_PREAMBLE_BYTE) @ Some (2 + n) # Some cmd #
                      map Some payload @ Some ?hi # Some ?lo # rest"
    using rx by (simp add: rscpSendMsg_txBuffer_eq [OF len])
  show ?thesis
  proof (cases "payload = []")
    case True
    with len have n0: "n = 0" by (simp add: unat_eq_0)
    have "rscpGetMsg t f e =
      (RSCP_ERR_OK,
       f\<lparr>length_f := 2 + n, command := cmd, crc := push_bit 8 (ucast ?hi) OR ucast ?lo\<rparr>,
       e\<lparr>rx := rest, polls := polls e + 1 + 4\<rparr>)"
      using ne rx' True n0 by (intro rscpGetMsg_no_data) simp_all
    then show ?thesis
      using True n0 f by (simp add: crc_reassemble)
  next
    case False
    then have pos: "0 < unat n" using len by (cases payload) auto
    then have l2: "2 < 2 + n" using L by (simp add: word_less_nat_alt)
    have idx: "(of_nat (unat n) :: u32) < 26"
      using of_nat_index [of "unat n"] n by simp
    have st: "store_at (data f) 0 payload = payload @ drop (unat n) (data f)"
      using len n f by (simp add: store_at_eq)
    have "rscpGetMsg_run t f e = rscpGetMsg_run t f
       (feed e (replicate 1 (Some RSCP_PREAMBLE_BYTE) @ Some (2 + n) # Some cmd #
                  map Some payload @ Some ?hi # Some ?lo # rest) (polls e))"
      using feed_self [of e] rx' by simp
    also have "\<dots> = rscpGetMsg_loop rscpGetMsg_switch t
         \<lparr>bufferIndex = of_nat 0, rscpRxStatus = 2,
          frame = f\<lparr>length_f := 2 + n, command := cmd\<rparr>, data_writes = []\<rparr>
         (feed e (map Some payload @ Some ?hi # Some ?lo # rest) (Suc (Suc (polls e + 1))))"
      using ne l2
      by (simp add: rscpGetMsg_run_def rx_vars_init_def rscpGetMsg_loop_step
          switch_preamble switch_length switch_command)
    also have "\<dots> = rscpGetMsg_loop rscpGetMsg_switch t
         \<lparr>bufferIndex = of_nat (0 + length payload),
          rscpRxStatus = (if unat (length_f (f\<lparr>length_f := 2 + n, command := cmd\<rparr>))
                               \<le> 0 + length payload + 2 then 3 else 2),
          frame = (f\<lparr>length_f := 2 + n, command := cmd\<rparr>)
                    \<lparr>data := store_at (data (f\<lparr>length_f := 2 + n, command := cmd\<rparr>)) 0 payload\<rparr>,
          data_writes = [] @ [0..<0 + length payload]\<rparr>
         (feed e (Some ?hi # Some ?lo # rest) (Suc (Suc (polls e + 1)) + length payload))"
      using False len n L by (intro rscpGetMsg_loop_data) simp_all
    also have "\<dots> = (RSCP_ERR_OK,
         \<lparr>bufferIndex = of_nat (unat n), rscpRxStatus = 4,
          frame = f\<lparr>length_f := 2 + n, command := cmd,
                    data := payload @ drop (unat n) (data f),
                    crc := push_bit 8 (ucast ?hi) OR ucast ?lo\<rparr>,
          data_writes = [0..<unat n]\<rparr>,
         feed e rest (Suc (Suc (Suc (Suc (polls e + 1)) + unat n))))"
      using idx len L st
      by (simp add: rscpGetMsg_loop_step switch_crc_hi switch_crc_lo)
    finally show ?thesis
      by (simp add: rscpGetMsg_def feed_def crc_reassemble)
  qed
qed

lemma roundtrip_upto_25_crc:
  assumes len: "length payload = unat n" and n: "unat n \<le> 25" and f: "length (data f) = 26"
  shows "frame_crc cb (f\<lparr>length_f := 2 + n, command := cmd,
            data := payload @ drop (unat n) (data f),
            crc := rscpGetCrcCallback cb ((2 + n) # cmd # payload)\<rparr>)
         = rscpGetCrcCallback cb ((2 + n) # cmd # payload)"
  using len unat_length_byte [OF n]
  by (simp add: frame_crc_def RSCP_frame_bytes_def)

subsection \<open>A payload of 26 bytes\<close>

text \<open>
  C1 at a payload of 26 bytes: \<^verbatim>\<open>rscpSendMsg\<close> sends the frame, and \<^verbatim>\<open>rscpGetMsg\<close>, fed
  its bytes, stores the 26th data byte, finds \<^verbatim>\<open>bufferIndex < sizeof(frame->data)\<close>
  false before it reads the CRC and returns \<open>RSCP_ERR_OVERFLOW\<close>.
\<close>

theorem roundtrip_26_fails:
  "rscpSendMsg cb0 3 (replicate 26 7) 26 (env0 []) =
     (RSCP_ERR_OK, (env0 [])\<lparr>sent := [rscpSendMsg_txBuffer cb0 3 (replicate 26 7) 26]\<rparr>) \<and>
   fst (rscpGetMsg 0 frame0 (env0 (map Some (rscpSendMsg_txBuffer cb0 3 (replicate 26 7) 26))))
     = RSCP_ERR_OVERFLOW"
  by code_simp

subsection \<open>A payload too long for the transmit buffer\<close>

text \<open>
  C2 at a payload of 60 bytes: \<^verbatim>\<open>rscpSendMsg\<close> stores 65 bytes, the last at
  \<^verbatim>\<open>txBuffer[64]\<close> of an array of 64, hands all 65 to \<^verbatim>\<open>rscpSendSlotCallback\<close> and
  returns \<open>RSCP_ERR_OK\<close>.
\<close>

theorem oversize_send:
  "fst (rscpSendMsg cb0 4 (replicate 60 0) 60 (env0 [])) = RSCP_ERR_OK \<and>
   map length (sent (snd (rscpSendMsg cb0 4 (replicate 60 0) 60 (env0 [])))) = [65] \<and>
   RSCP_MAX_TX_BUFFER_SIZE < 65"
  by code_simp

lemma rscpSendMsg_txBuffer_length:
  "unat n \<le> length dat \<Longrightarrow> length (rscpSendMsg_txBuffer cb cmd dat n) = 5 + unat n"
  by (simp add: rscpSendMsg_txBuffer_def Let_def)

lemma rscpSendMsg_returns:
  "fst (rscpSendMsg cb cmd dat n e) =
     (if rscpSendSlotCallback cb (rscpSendMsg_txBuffer cb cmd dat n)
      then RSCP_ERR_OK else RSCP_ERR_TX_FAILED)"
  by (simp add: rscpSendMsg_def Let_def)

end
